theory Spec2Isabelle
  imports Complex_Main
begin

section \<open>Data model\<close>

text \<open>
  The persistence layer holds two collections, users and teams. A team document follows
  \<open>teamSchema\<close> field by field. String-valued enum fields stay strings, as in the
  schema, and the two payment-proof fields are nullable strings.

  The \<open>_id\<close> of a team document is represented by the position at which the document
  was inserted into the collection: MongoDB guarantees that \<open>_id\<close> is unique, and no
  route of the repository deletes a team, so positions are stable identifiers.
\<close>

text \<open>
  Modelled from the spec: the User model (\<open>models/User\<close>) is not among the sources. A
  user is an identity record with a registration number and an email, referenced by
  teams through its \<open>_id\<close>; these are the three fields that the routes read.
\<close>

record user =
  user_id :: nat
  email :: string
  user_registrationNumber :: string

record team =
  teamName :: string
  leader :: nat
  members :: "nat list"
  problemStatement :: string
  teamSize :: string
  status :: string
  registrationNumber :: string
  paymentScreenshot :: "string option"
  paymentScreenshotCloudinaryId :: "string option"
  paymentStatus :: string

text \<open>An HTTP answer: the status code given to \<open>res.status\<close> and the \<open>message\<close> of the body.\<close>

record response =
  status_code :: nat
  message :: string

text \<open>The answers of the routes, named once; each stands for the status code and the
  message written at that place of the source.\<close>

abbreviation team_name_exists :: response where
  "team_name_exists \<equiv>
     \<lparr>status_code = 400,
      message = ''Team name already exists. Please choose a different name.''\<rparr>"

abbreviation already_registered :: response where
  "already_registered \<equiv>
     \<lparr>status_code = 400, message = ''You are already registered in a team''\<rparr>"

abbreviation solo_rejected :: response where
  "solo_rejected \<equiv>
     \<lparr>status_code = 400, message = ''Solo teams cannot have additional members''\<rparr>"

abbreviation duo_rejected :: response where
  "duo_rejected \<equiv>
     \<lparr>status_code = 400, message = ''Duo teams must have exactly 1 additional member''\<rparr>"

abbreviation team_rejected :: response where
  "team_rejected \<equiv>
     \<lparr>status_code = 400, message = ''Teams must have 2-4 additional members''\<rparr>"

abbreviation members_not_found :: response where
  "members_not_found \<equiv>
     \<lparr>status_code = 400,
      message = ''One or more members not found. Please ensure all members are registered on the platform.''\<rparr>"

abbreviation members_in_team :: response where
  "members_in_team \<equiv>
     \<lparr>status_code = 400, message = ''One or more members are already in a team''\<rparr>"

abbreviation validation_error :: response where
  "validation_error \<equiv> \<lparr>status_code = 400, message = ''Validation error''\<rparr>"

abbreviation duplicate_key :: response where
  "duplicate_key \<equiv> \<lparr>status_code = 400, message = ''Team name already exists''\<rparr>"

abbreviation registration_server_error :: response where
  "registration_server_error \<equiv>
     \<lparr>status_code = 500, message = ''Server error during team registration''\<rparr>"

abbreviation no_file_uploaded :: response where
  "no_file_uploaded \<equiv> \<lparr>status_code = 400, message = ''No file uploaded''\<rparr>"

abbreviation not_found_or_unauthorized :: response where
  "not_found_or_unauthorized \<equiv>
     \<lparr>status_code = 404, message = ''Team not found or you are not authorized''\<rparr>"

abbreviation upload_unsuccessful :: response where
  "upload_unsuccessful \<equiv>
     \<lparr>status_code = 500, message = ''Failed to process and upload image''\<rparr>"

abbreviation upload_server_error :: response where
  "upload_server_error \<equiv>
     \<lparr>status_code = 500, message = ''Server error during payment upload''\<rparr>"

abbreviation upload_succeeded :: response where
  "upload_succeeded \<equiv>
     \<lparr>status_code = 200,
      message = ''Payment screenshot uploaded and compressed successfully''\<rparr>"

abbreviation invalid_payment_status :: response where
  "invalid_payment_status \<equiv> \<lparr>status_code = 400, message = ''Invalid payment status''\<rparr>"

abbreviation team_not_found :: response where
  "team_not_found \<equiv> \<lparr>status_code = 404, message = ''Team not found''\<rparr>"

abbreviation payment_status_updated :: response where
  "payment_status_updated \<equiv>
     \<lparr>status_code = 200, message = ''Payment status updated successfully''\<rparr>"

text \<open>One entry of an array sent as \<open>req.body.members\<close>.\<close>

record member_entry =
  member_email :: string
  member_registrationNumber :: string

text \<open>
  The route reads \<open>req.body.members\<close> as it arrives and never looks at its type, so the
  property holds any JSON value. The route tells three kinds of value apart:
  \<^item> \<open>Falsy\<close>: the property is absent, or it is \<open>null\<close>, \<open>false\<close>, \<open>0\<close> or the empty
    string;
  \<^item> \<open>Array ms\<close>: an array of entries, each with an email and a registration number;
  \<^item> \<open>NonArray l\<close>: any other value (an object, a non-empty string, a non-zero number,
    \<open>true\<close>). Such a value is truthy and has no \<open>map\<close> method; \<open>l\<close> is what its
    \<open>length\<close> property evaluates to.

  The \<open>length\<close> of a value that is not an array is \<open>Undefined\<close> when the value has no
  such property (\<open>{}\<close>, a number, \<open>true\<close>), a number (the length of a string, or the
  number that an object carries under that name), or a value of another type (a string,
  a boolean, \<open>null\<close>, an object, an array); the latter comes with the number to which the
  comparisons \<open><\<close> and \<open>>\<close> convert it, \<open>None\<close> for \<open>NaN\<close>.
\<close>

datatype length_value = Undefined | Number real | Other "real option"

datatype members_value = Falsy | Array "member_entry list" | NonArray length_value

text \<open>The body of a registration request.\<close>

record register_body =
  body_teamName :: string
  body_members :: members_value
  body_problemStatement :: string
  body_teamSize :: string

section \<open>Strings of the JavaScript runtime\<close>

text \<open>\<open>String(n)\<close> for a non-negative integer: its decimal digits, most significant first.\<close>

definition digit_char :: "nat \<Rightarrow> char" where
  "digit_char d = ''0123456789'' ! d"

fun String_of_number :: "nat \<Rightarrow> string" where
  "String_of_number n =
     (if n < 10 then [digit_char n]
      else String_of_number (n div 10) @ [digit_char (n mod 10)])"

declare String_of_number.simps [simp del]

text \<open>\<open>s.padStart(targetLength, padString)\<close>: the pad string is repeated and cut to fill the
  missing length; a string that is long enough, or an empty pad string, leaves \<open>s\<close> as it is.\<close>

definition padStart :: "nat \<Rightarrow> string \<Rightarrow> string \<Rightarrow> string" where
  "padStart targetLength padString s =
     (if targetLength \<le> length s \<or> padString = [] then s
      else take (targetLength - length s)
             (concat (replicate (targetLength - length s) padString)) @ s)"

text \<open>The \<open>trim\<close> setter of \<open>teamName\<close>: white space is removed at both ends. Strings are
  byte strings here, so the white space is the ASCII part of JavaScript's.\<close>

definition is_space :: "char \<Rightarrow> bool" where
  "is_space c = (c \<in> set [CHR '' '', CHR 0x09, CHR 0x0A, CHR 0x0B, CHR 0x0C, CHR 0x0D])"

definition trim :: "string \<Rightarrow> string" where
  "trim s = rev (dropWhile is_space (rev (dropWhile is_space s)))"

section \<open>Queries on the team and user collections\<close>

text \<open>\<open>{ $or: [{ leader: id }, { members: id }] }\<close>: the user leads the team or is one of
  its members.\<close>

definition leader_or_member :: "nat \<Rightarrow> team \<Rightarrow> bool" where
  "leader_or_member uid t = (leader t = uid \<or> uid \<in> set (members t))"

text \<open>\<open>{ $or: [{ leader: { $in: ids } }, { members: { $in: ids } }] }\<close>.\<close>

definition any_in_team :: "nat list \<Rightarrow> team \<Rightarrow> bool" where
  "any_in_team ids t = (leader t \<in> set ids \<or> list_ex (\<lambda>m. m \<in> set ids) (members t))"

text \<open>\<open>User.find({ $or: members.map(...) })\<close>: every user document that matches one of the
  entries in both email and registration number, each document once, in collection order.\<close>

definition matches_entry :: "user \<Rightarrow> member_entry \<Rightarrow> bool" where
  "matches_entry u m =
     (email u = member_email m \<and> user_registrationNumber u = member_registrationNumber m)"

definition find_member_users :: "user list \<Rightarrow> member_entry list \<Rightarrow> user list" where
  "find_member_users users ms = filter (\<lambda>u. list_ex (matches_entry u) ms) users"

section \<open>Saving a new team document\<close>

text \<open>
  \<open>team.save()\<close> on a new document first runs the schema's validators
  (\<open>required\<close> on the name, the problem statement and the size, \<open>enum\<close> on the size;
  a required string must be non-empty) and then inserts, where the unique indexes on
  \<open>teamName\<close> and \<open>registrationNumber\<close> refuse a duplicate with error code 11000.
  The route's \<open>catch\<close> turns the two failures into its two 400 answers.
\<close>

datatype save_error = ValidationError | DuplicateKey

definition schema_valid :: "team \<Rightarrow> bool" where
  "schema_valid t =
     (teamName t \<noteq> [] \<and> problemStatement t \<noteq> [] \<and>
      teamSize t \<in> set [''Solo'', ''Duo'', ''Team''] \<and>
      registrationNumber t \<noteq> [])"

definition save_new :: "team list \<Rightarrow> team \<Rightarrow> save_error + team list" where
  "save_new teams t =
     (if \<not> schema_valid t then Inl ValidationError
      else if list_ex (\<lambda>x. teamName x = teamName t) teams
              \<or> list_ex (\<lambda>x. registrationNumber x = registrationNumber t) teams
      then Inl DuplicateKey
      else Inr (teams @ [t]))"

section \<open>POST /api/teams/register\<close>

text \<open>\<open>members ? members.length : 0\<close>. The result is a number for an array and for a
  falsy value, and whatever the \<open>length\<close> property holds otherwise.\<close>

definition memberCount :: "register_body \<Rightarrow> length_value" where
  "memberCount body =
     (case body_members body of
        Falsy \<Rightarrow> Number 0
      | Array ms \<Rightarrow> Number (real (length ms))
      | NonArray l \<Rightarrow> l)"

text \<open>The comparisons \<open>v > c\<close> and \<open>v < c\<close> with a number \<open>c\<close> convert \<open>v\<close> to a number
  first. \<open>undefined\<close> converts to \<open>NaN\<close>, and every comparison with \<open>NaN\<close> is false.
  The strict \<open>v !== 1\<close> converts nothing: it is false for the number 1 only, which is
  \<open>v \<noteq> Number 1\<close>.\<close>

definition ToNumber :: "length_value \<Rightarrow> real option" where
  "ToNumber v = (case v of Undefined \<Rightarrow> None | Number x \<Rightarrow> Some x | Other c \<Rightarrow> c)"

definition greater_than :: "length_value \<Rightarrow> real \<Rightarrow> bool" where
  "greater_than v c = (case ToNumber v of None \<Rightarrow> False | Some x \<Rightarrow> c < x)"

definition less_than :: "length_value \<Rightarrow> real \<Rightarrow> bool" where
  "less_than v c = (case ToNumber v of None \<Rightarrow> False | Some x \<Rightarrow> x < c)"

text \<open>
  The block that verifies the members, entered when \<open>members && members.length > 0\<close>.
  For an array it resolves the entries to user documents, refuses when the number of
  documents found differs from the number of entries or when one of the users is in a
  team, and yields the ids of the users. A value that is not an array has no \<open>map\<close>
  method: inside the block \<open>members.map\<close> throws a \<open>TypeError\<close>, which the \<open>catch\<close> of
  the route answers with 500. When the block is skipped, \<open>memberUserIds\<close> stays empty.
\<close>

definition memberUserIds :: "user list \<Rightarrow> team list \<Rightarrow> members_value \<Rightarrow> response + nat list" where
  "memberUserIds users teams ms_value =
     (case ms_value of
        Falsy \<Rightarrow> Inr []
      | NonArray l \<Rightarrow> if greater_than l 0 then Inl registration_server_error else Inr []
      | Array ms \<Rightarrow>
          if ms \<noteq> [] then
            let memberUsers = find_member_users users ms in
            if length memberUsers \<noteq> length ms
            then Inl members_not_found
            else
              let ids = map user_id memberUsers in
              if filter (any_in_team ids) teams \<noteq> []
              then Inl members_in_team
              else Inr ids
          else Inr [])"

text \<open>
  The route, check by check in the order of the source. It answers either with an error
  response or, on success, with the team collection after the insert and the new
  document (the 201 answer shows that document with leader and members populated).
  The filter value of the name query is cast through the schema like the stored value,
  so the name is looked up trimmed.
\<close>

definition registerTeam ::
  "user list \<Rightarrow> team list \<Rightarrow> nat \<Rightarrow> register_body \<Rightarrow> response + (team list \<times> team)" where
  "registerTeam users teams requester body =
     (let name = trim (body_teamName body) in
      if find (\<lambda>t. teamName t = name) teams \<noteq> None
      then Inl team_name_exists
      else if find (leader_or_member requester) teams \<noteq> None
      then Inl already_registered
      else
        if body_teamSize body = ''Solo'' \<and> greater_than (memberCount body) 0
        then Inl solo_rejected
        else if body_teamSize body = ''Duo'' \<and> memberCount body \<noteq> Number 1
        then Inl duo_rejected
        else if body_teamSize body = ''Team''
                \<and> (less_than (memberCount body) 2 \<or> greater_than (memberCount body) 4)
        then Inl team_rejected
        else
          (case memberUserIds users teams (body_members body) of
             Inl refused \<Rightarrow> Inl refused
           | Inr ids \<Rightarrow>
              let teamCount = length teams;
                  t = \<lparr>teamName = name,
                       leader = requester,
                       members = ids,
                       problemStatement = body_problemStatement body,
                       teamSize = body_teamSize body,
                       status = ''pending'',
                       registrationNumber =
                         ''TEAM'' @ padStart 4 ''0'' (String_of_number (teamCount + 1)),
                       paymentScreenshot = None,
                       paymentScreenshotCloudinaryId = None,
                       paymentStatus = ''pending''\<rparr>
              in
              (case save_new teams t of
                 Inl ValidationError \<Rightarrow> Inl validation_error
               | Inl DuplicateKey \<Rightarrow> Inl duplicate_key
               | Inr teams' \<Rightarrow> Inr (teams', t))))"

section \<open>The image pipeline\<close>

text \<open>
  The image library and the storage provider are collaborators outside the repository.
  Their answers are inputs of the model: each call either throws or returns.
  \<open>destroy_result\<close> is what \<open>cloudinary.uploader.destroy\<close> does when asked to delete,
  \<open>sharp_result\<close> the compressed buffer, \<open>upload_response\<close> the provider's answer to
  the upload. The calls made to the provider are recorded in the order they are issued.
\<close>

datatype 'a outcome = Throws | Returns 'a

record uploaded_file =
  originalname :: string
  file_size :: nat

record cloudinary_response =
  secure_url :: string
  public_id :: string
  bytes :: nat

record storage_env =
  destroy_result :: "string outcome"
  sharp_result :: "nat list outcome"
  upload_response :: "cloudinary_response outcome"

datatype cloud_call = Destroy string | Upload "nat list"

text \<open>\<open>deleteImageFromCloudinary\<close>: never throws; true only when the provider answers
  \<open>ok\<close>.\<close>

definition deleteImageFromCloudinary :: "string \<Rightarrow> storage_env \<Rightarrow> bool \<times> cloud_call list" where
  "deleteImageFromCloudinary handle env =
     (case destroy_result env of
        Throws \<Rightarrow> (False, [Destroy handle])
      | Returns r \<Rightarrow> (r = ''ok'', [Destroy handle]))"

text \<open>The object returned by \<open>compressAndUploadImage\<close>. The \<open>compressionRatio\<close> field, a
  floating-point percentage that only the response body shows, is left out.\<close>

record upload_result =
  success :: bool
  url :: string
  publicId :: string
  originalSize :: nat
  compressedSize :: nat
  cloudinaryId :: string

text \<open>\<open>compressAndUploadImage\<close>: any failure inside the \<open>try\<close> is rethrown as a new error;
  the upload is only requested once the compression has returned.\<close>

definition compressAndUploadImage ::
  "uploaded_file \<Rightarrow> storage_env \<Rightarrow> upload_result outcome \<times> cloud_call list" where
  "compressAndUploadImage file env =
     (case sharp_result env of
        Throws \<Rightarrow> (Throws, [])
      | Returns compressedBuffer \<Rightarrow>
          (case upload_response env of
             Throws \<Rightarrow> (Throws, [Upload compressedBuffer])
           | Returns uploadResult \<Rightarrow>
               (Returns \<lparr>success = True,
                         url = secure_url uploadResult,
                         publicId = public_id uploadResult,
                         originalSize = file_size file,
                         compressedSize = bytes uploadResult,
                         cloudinaryId = public_id uploadResult\<rparr>,
                [Upload compressedBuffer])))"

section \<open>POST /api/teams/upload-payment\<close>

text \<open>\<open>Team.findOne({ _id: teamId, $or: [{ leader: id }, { members: id }] })\<close>.\<close>

definition find_owned_team :: "team list \<Rightarrow> nat \<Rightarrow> nat \<Rightarrow> team option" where
  "find_owned_team teams teamId requester =
     (if teamId < length teams \<and> leader_or_member requester (teams ! teamId)
      then Some (teams ! teamId) else None)"

text \<open>The route answers with a response; the model returns it with the team collection
  and the provider calls it leaves behind. A null or empty storage handle is falsy, so
  nothing is deleted for it.\<close>

definition uploadPayment ::
  "team list \<Rightarrow> nat \<Rightarrow> nat \<Rightarrow> uploaded_file option \<Rightarrow> storage_env
     \<Rightarrow> response \<times> team list \<times> cloud_call list" where
  "uploadPayment teams requester teamId file env =
     (case file of
        None \<Rightarrow> (no_file_uploaded, teams, [])
      | Some f \<Rightarrow>
          (case find_owned_team teams teamId requester of
             None \<Rightarrow> (not_found_or_unauthorized, teams, [])
           | Some t \<Rightarrow>
               let deleted =
                     (case paymentScreenshotCloudinaryId t of
                        None \<Rightarrow> []
                      | Some old \<Rightarrow>
                          if old = [] then [] else snd (deleteImageFromCloudinary old env));
                   (uploadResult, uploaded) = compressAndUploadImage f env
               in
               (case uploadResult of
                  Throws \<Rightarrow> (upload_server_error, teams, deleted @ uploaded)
                | Returns r \<Rightarrow>
                    if \<not> success r
                    then (upload_unsuccessful, teams, deleted @ uploaded)
                    else
                      (upload_succeeded,
                       teams[teamId := t\<lparr>paymentScreenshot := Some (url r),
                                         paymentScreenshotCloudinaryId := Some (cloudinaryId r),
                                         paymentStatus := ''pending''\<rparr>],
                       deleted @ uploaded))))"

section \<open>The admin routes\<close>

text \<open>PUT /api/admin/teams/:teamId/payment-status, behind the admin middleware.\<close>

definition setPaymentStatus :: "team list \<Rightarrow> nat \<Rightarrow> string \<Rightarrow> response \<times> team list" where
  "setPaymentStatus teams teamId newStatus =
     (if newStatus \<notin> set [''pending'', ''verified'', ''rejected'']
      then (invalid_payment_status, teams)
      else if \<not> teamId < length teams
      then (team_not_found, teams)
      else (payment_status_updated,
            teams[teamId := (teams ! teamId)\<lparr>paymentStatus := newStatus\<rparr>]))"

section \<open>GET /api/admin/stats\<close>

text \<open>
  A JavaScript number is an IEEE-754 double. A finite double is represented here by the
  real number it denotes, and an arithmetic operation by the exact result rounded to the
  nearest double, ties to the even significand. \<open>floor_log2 q\<close> is the binary exponent of
  a positive \<open>q\<close>, and a double with that exponent is a multiple of \<open>2 ^ (e - 52)\<close>.
  Subnormal numbers and overflow are not modelled: a ratio of two counts times 100 is
  far from both.
\<close>

fun bit_length :: "nat \<Rightarrow> nat" where
  "bit_length n = (if n = 0 then 0 else Suc (bit_length (n div 2)))"

declare bit_length.simps [simp del]

definition pow2 :: "int \<Rightarrow> real" where
  "pow2 k = (if 0 \<le> k then 2 ^ nat k else 1 / 2 ^ nat (- k))"

definition floor_log2 :: "real \<Rightarrow> int" where
  "floor_log2 q =
     (if 1 \<le> q then int (bit_length (nat \<lfloor>q\<rfloor>)) - 1
      else - int (bit_length (nat (\<lceil>1 / q\<rceil> - 1))))"

definition round_half_even :: "real \<Rightarrow> int" where
  "round_half_even y =
     (let f = \<lfloor>y\<rfloor>; r = y - of_int f
      in if r < 1 / 2 then f
         else if 1 / 2 < r then f + 1
         else if even f then f else f + 1)"

definition round_double :: "real \<Rightarrow> real" where
  "round_double q =
     (if q = 0 then 0
      else let ulp = pow2 (floor_log2 \<bar>q\<bar> - 52)
           in of_int (round_half_even (q / ulp)) * ulp)"

definition double_divide :: "real \<Rightarrow> real \<Rightarrow> real" where
  "double_divide a b = round_double (a / b)"

definition double_times :: "real \<Rightarrow> real \<Rightarrow> real" where
  "double_times a b = round_double (a * b)"

text \<open>
  \<open>x.toFixed(fractionDigits)\<close> for a double below \<open>10 ^ 21\<close>: the integer \<open>n\<close> for which
  \<open>n / 10 ^ fractionDigits - x\<close> is closest to zero, the larger one if there are two,
  written in decimal with a point before its last \<open>fractionDigits\<close> digits.
\<close>

definition toFixed_integer :: "nat \<Rightarrow> real \<Rightarrow> int" where
  "toFixed_integer fractionDigits x = \<lfloor>x * 10 ^ fractionDigits + 1 / 2\<rfloor>"

definition toFixed :: "nat \<Rightarrow> real \<Rightarrow> string" where
  "toFixed fractionDigits x =
     (let n = toFixed_integer fractionDigits \<bar>x\<bar>;
          m = String_of_number (nat n);
          padded = (if length m \<le> fractionDigits
                    then replicate (fractionDigits + 1 - length m) CHR ''0'' @ m else m);
          k = length padded;
          digits = (if fractionDigits = 0 then m
                    else take (k - fractionDigits) padded @ ''.'' @
                         drop (k - fractionDigits) padded)
      in if x < 0 then ''-'' @ digits else digits)"

text \<open>The rate of the response is either the number 0 or the string that \<open>toFixed\<close>
  returns.\<close>

datatype json_scalar = JsonNumber int | JsonString string

record stats =
  totalTeams :: nat
  verifiedPayments :: nat
  pendingPayments :: nat
  rejectedPayments :: nat
  totalUsers :: nat
  paymentVerificationRate :: json_scalar

text \<open>\<open>(verifiedPayments / totalTeams) * 100\<close>, a division and a multiplication of doubles.\<close>

definition verification_percentage :: "nat \<Rightarrow> nat \<Rightarrow> real" where
  "verification_percentage verified teamCount =
     double_times (double_divide (real verified) (real teamCount)) 100"

definition computeStats :: "user list \<Rightarrow> team list \<Rightarrow> stats" where
  "computeStats users teams =
     (let teamCount = length teams;
          verified = length (filter (\<lambda>t. paymentStatus t = ''verified'') teams);
          pending = length (filter (\<lambda>t. paymentStatus t = ''pending'') teams);
          rejected = length (filter (\<lambda>t. paymentStatus t = ''rejected'') teams)
      in \<lparr>totalTeams = teamCount,
          verifiedPayments = verified,
          pendingPayments = pending,
          rejectedPayments = rejected,
          totalUsers = length users,
          paymentVerificationRate =
            (if teamCount > 0
             then JsonString (toFixed 1 (verification_percentage verified teamCount))
             else JsonNumber 0)\<rparr>)"

text \<open>The integer of tenths that \<open>toFixed(1)\<close> writes for the rate.\<close>

definition rate_tenths :: "nat \<Rightarrow> nat \<Rightarrow> int" where
  "rate_tenths verified teamCount =
     toFixed_integer 1 (verification_percentage verified teamCount)"

section \<open>Sequences of operations\<close>

text \<open>A history is a list of requests, each with the user collection and the collaborator
  answers it meets. A request that is refused leaves the team collection as it was.\<close>

datatype operation =
    Register "user list" nat register_body
  | UploadPayment nat nat "uploaded_file option" storage_env
  | SetPaymentStatus nat string

fun apply_operation :: "team list \<Rightarrow> operation \<Rightarrow> team list" where
  "apply_operation teams (Register users requester body) =
     (case registerTeam users teams requester body of
        Inl _ \<Rightarrow> teams
      | Inr (teams', _) \<Rightarrow> teams')"
| "apply_operation teams (UploadPayment requester teamId file env) =
     fst (snd (uploadPayment teams requester teamId file env))"
| "apply_operation teams (SetPaymentStatus teamId newStatus) =
     snd (setPaymentStatus teams teamId newStatus)"

definition run :: "operation list \<Rightarrow> team list" where
  "run ops = foldl apply_operation [] ops"

section \<open>Properties named by the specification\<close>

text \<open>The member-count bound of a size class: Solo has no additional member, Duo exactly
  one, Team two to four.\<close>

definition size_class_bound :: "string \<Rightarrow> nat \<Rightarrow> bool" where
  "size_class_bound sizeClass n =
     (if sizeClass = ''Solo'' then n = 0
      else if sizeClass = ''Duo'' then n = 1
      else if sizeClass = ''Team'' then 2 \<le> n \<and> n \<le> 4
      else True)"

text \<open>An operation whose \<open>members\<close> property, when it is a registration, is an array or
  absent (or another falsy value).\<close>

definition array_or_absent :: "operation \<Rightarrow> bool" where
  "array_or_absent x =
     (case x of
        Register users requester body \<Rightarrow>
          (case body_members body of NonArray l \<Rightarrow> False | _ \<Rightarrow> True)
      | _ \<Rightarrow> True)"

text \<open>The proof reference and its storage handle are both null or both set.\<close>

definition proof_fields_paired :: "team \<Rightarrow> bool" where
  "proof_fields_paired t =
     ((paymentScreenshot t = None) = (paymentScreenshotCloudinaryId t = None))"

text \<open>The number that a string of decimal digits denotes, to read a registration number
  back.\<close>

definition is_digit :: "char \<Rightarrow> bool" where
  "is_digit c = (c \<in> set ''0123456789'')"

definition digit_val :: "char \<Rightarrow> nat" where
  "digit_val c = of_char c - 48"

definition decimal_value :: "string \<Rightarrow> nat" where
  "decimal_value s = foldl (\<lambda>a c. 10 * a + digit_val c) 0 s"

text \<open>A percentage rounded to one decimal place, a half rounded up, as the specification
  words it for the verification rate.\<close>

definition one_decimal :: "real \<Rightarrow> real" where
  "one_decimal x = of_int \<lfloor>x * 10 + 1 / 2\<rfloor> / 10"

section \<open>The scenarios of the specification\<close>

text \<open>Three registered users, the Solo team Falcons of the first one, and the collaborator
  answers of an upload that goes through and of one whose upload is refused.\<close>

definition u1 :: user where
  "u1 = \<lparr>user_id = 101, email = ''u1@example.org'', user_registrationNumber = ''REG001''\<rparr>"

definition u2 :: user where
  "u2 = \<lparr>user_id = 102, email = ''u2@example.org'', user_registrationNumber = ''REG002''\<rparr>"

definition u3 :: user where
  "u3 = \<lparr>user_id = 103, email = ''u3@example.org'', user_registrationNumber = ''REG003''\<rparr>"

definition scenario_users :: "user list" where
  "scenario_users = [u1, u2, u3]"

definition falcons_body :: register_body where
  "falcons_body =
     \<lparr>body_teamName = ''Falcons'', body_members = Falsy,
      body_problemStatement = ''Smart Campus Navigation App'', body_teamSize = ''Solo''\<rparr>"

definition falcons :: team where
  "falcons =
     \<lparr>teamName = ''Falcons'', leader = 101, members = [],
      problemStatement = ''Smart Campus Navigation App'', teamSize = ''Solo'',
      status = ''pending'', registrationNumber = ''TEAM0001'',
      paymentScreenshot = None, paymentScreenshotCloudinaryId = None,
      paymentStatus = ''pending''\<rparr>"

definition eagles_body :: "member_entry list \<Rightarrow> register_body" where
  "eagles_body ms =
     \<lparr>body_teamName = ''Eagles'', body_members = Array ms,
      body_problemStatement = ''Mental Health Support Chatbot'',
      body_teamSize = (if length ms = 1 then ''Duo'' else ''Team'')\<rparr>"

definition entry_of :: "user \<Rightarrow> member_entry" where
  "entry_of u =
     \<lparr>member_email = email u, member_registrationNumber = user_registrationNumber u\<rparr>"

text \<open>The team that the first user gets when the single member named in a Duo request
  is that user.\<close>

definition eagles_of_one :: team where
  "eagles_of_one =
     \<lparr>teamName = ''Eagles'', leader = 101, members = [101],
      problemStatement = ''Mental Health Support Chatbot'', teamSize = ''Duo'',
      status = ''pending'', registrationNumber = ''TEAM0001'',
      paymentScreenshot = None, paymentScreenshotCloudinaryId = None,
      paymentStatus = ''pending''\<rparr>"

text \<open>The request of class \<open>Team\<close> whose \<open>members\<close> property is the object \<open>{}\<close>, sent
  by the second user, and the team that it stores.\<close>

definition eagles_object_body :: register_body where
  "eagles_object_body =
     \<lparr>body_teamName = ''Eagles'', body_members = NonArray Undefined,
      body_problemStatement = ''Mental Health Support Chatbot'', body_teamSize = ''Team''\<rparr>"

definition eagles_of_none :: team where
  "eagles_of_none =
     \<lparr>teamName = ''Eagles'', leader = 102, members = [],
      problemStatement = ''Mental Health Support Chatbot'', teamSize = ''Team'',
      status = ''pending'', registrationNumber = ''TEAM0001'',
      paymentScreenshot = None, paymentScreenshotCloudinaryId = None,
      paymentStatus = ''pending''\<rparr>"

definition proof_file :: uploaded_file where
  "proof_file = \<lparr>originalname = ''proof.png'', file_size = 204800\<rparr>"

definition storage_ok :: storage_env where
  "storage_ok =
     \<lparr>destroy_result = Returns ''ok'',
      sharp_result = Returns [82, 73, 70, 70],
      upload_response =
        Returns \<lparr>secure_url = ''https://res.cloudinary.com/demo/image/upload/proof-2.webp'',
                 public_id = ''hackathon/payment-proofs/proof-2'',
                 bytes = 51200\<rparr>\<rparr>"

definition storage_down :: storage_env where
  "storage_down = storage_ok\<lparr>upload_response := Throws\<rparr>"

text \<open>A history of Solo registrations, one user after the other, and the team that the
  registration of user \<open>i\<close> stores.\<close>

definition solo_body :: "nat \<Rightarrow> register_body" where
  "solo_body i =
     \<lparr>body_teamName = ''T'' @ String_of_number i, body_members = Falsy,
      body_problemStatement = ''Smart Campus Navigation App'', body_teamSize = ''Solo''\<rparr>"

definition solo_registration :: "nat \<Rightarrow> operation" where
  "solo_registration i = Register [] i (solo_body i)"

definition solo_team :: "nat \<Rightarrow> team" where
  "solo_team i =
     \<lparr>teamName = ''T'' @ String_of_number i, leader = i, members = [],
      problemStatement = ''Smart Campus Navigation App'', teamSize = ''Solo'',
      status = ''pending'',
      registrationNumber = ''TEAM'' @ padStart 4 ''0'' (String_of_number (i + 1)),
      paymentScreenshot = None, paymentScreenshotCloudinaryId = None,
      paymentStatus = ''pending''\<rparr>"

text \<open>Eighty Solo teams of eighty users, the first 23 of them with a verified payment.\<close>

definition eighty_users :: "user list" where
  "eighty_users =
     map (\<lambda>i. \<lparr>user_id = i, email = ''u'' @ String_of_number i @ ''@example.org'',
                user_registrationNumber = ''REG'' @ String_of_number i\<rparr>) [0..<80]"

definition eighty_teams :: "team list" where
  "eighty_teams =
     map (\<lambda>i. (solo_team i)\<lparr>paymentStatus := (if i < 23 then ''verified'' else ''pending'')\<rparr>)
       [0..<80]"

definition verify_team :: "nat \<Rightarrow> operation" where
  "verify_team i = SetPaymentStatus i ''verified''"

section \<open>Basic facts\<close>

lemma find_None_filter: "(find P xs = None) = (filter P xs = [])"
  by (induction xs) auto

lemma find_member_users_Nil: "find_member_users users [] = []"
  by (simp add: find_member_users_def)

lemma run_Nil: "run [] = []"
  by (simp add: run_def)

lemma run_snoc: "run (ops @ [x]) = apply_operation (run ops) x"
  by (simp add: run_def)

lemma length_filter_update:
  "i < length xs \<Longrightarrow> P y = P (xs ! i) \<Longrightarrow>
     length (filter P (xs[i := y])) = length (filter P xs)"
proof (induction xs arbitrary: i)
  case Nil
  then show ?case by simp
next
  case (Cons x xs)
  then show ?case by (cases i) auto
qed

lemma list_all_update:
  "list_all P xs \<Longrightarrow> P y \<Longrightarrow> list_all P (xs[i := y])"
  by (auto simp: list_all_iff dest: set_update_subset_insert [THEN subsetD])

section \<open>What a registration that succeeds has checked\<close>

lemma memberUserIds_Inr:
  assumes "memberUserIds users teams v = Inr ids"
  shows "ids = (case v of Array ms \<Rightarrow> map user_id (find_member_users users ms) | _ \<Rightarrow> []) \<and>
     (ids = [] \<or> filter (any_in_team ids) teams = [])"
  using assms
  by (auto simp: memberUserIds_def Let_def find_member_users_Nil
      split: members_value.splits if_splits)

lemma memberUserIds_Inl:
  assumes "memberUserIds users teams v = Inl e"
  shows "e = members_not_found \<or> e = members_in_team \<or>
     (e = registration_server_error \<and> (\<exists>l. v = NonArray l \<and> greater_than l 0))"
  using assms
  by (auto simp: memberUserIds_def Let_def split: members_value.splits if_splits)

lemma memberUserIds_length:
  assumes "memberUserIds users teams (Array ms) = Inr ids"
  shows "length ids = length ms"
  using assms
  by (auto simp: memberUserIds_def Let_def split: if_splits)

lemma registerTeam_Inr:
  assumes "registerTeam users teams requester body = Inr (teams', t)"
  shows "teams' = teams @ [t] \<and>
     leader t = requester \<and>
     teamSize t = body_teamSize body \<and>
     teamName t = trim (body_teamName body) \<and>
     registrationNumber t = ''TEAM'' @ padStart 4 ''0'' (String_of_number (length teams + 1)) \<and>
     paymentScreenshot t = None \<and>
     paymentScreenshotCloudinaryId t = None \<and>
     paymentStatus t = ''pending'' \<and>
     status t = ''pending'' \<and>
     schema_valid t \<and>
     filter (leader_or_member requester) teams = [] \<and>
     filter (\<lambda>x. teamName x = trim (body_teamName body)) teams = [] \<and>
     members t = (case body_members body of
                    Array ms \<Rightarrow> map user_id (find_member_users users ms) | _ \<Rightarrow> []) \<and>
     (members t = [] \<or> filter (any_in_team (members t)) teams = [])"
proof (cases "memberUserIds users teams (body_members body)")
  case (Inl refused)
  with assms show ?thesis
    by (simp add: registerTeam_def Let_def split: if_splits)
next
  case (Inr ids)
  note ids = memberUserIds_Inr [OF Inr]
  from assms have main: "teams' = teams @ [t] \<and>
     leader t = requester \<and>
     teamSize t = body_teamSize body \<and>
     teamName t = trim (body_teamName body) \<and>
     registrationNumber t = ''TEAM'' @ padStart 4 ''0'' (String_of_number (length teams + 1)) \<and>
     paymentScreenshot t = None \<and>
     paymentScreenshotCloudinaryId t = None \<and>
     paymentStatus t = ''pending'' \<and>
     status t = ''pending'' \<and>
     schema_valid t \<and>
     filter (leader_or_member requester) teams = [] \<and>
     filter (\<lambda>x. teamName x = trim (body_teamName body)) teams = [] \<and>
     members t = ids"
    by (auto simp: registerTeam_def Let_def Inr save_new_def find_None_filter
        split: if_splits sum.splits save_error.splits)
  then have m: "ids = members t" by simp
  from ids have "members t = (case body_members body of
                    Array ms \<Rightarrow> map user_id (find_member_users users ms) | _ \<Rightarrow> []) \<and>
     (members t = [] \<or> filter (any_in_team (members t)) teams = [])"
    unfolding m .
  with main show ?thesis by blast
qed

lemma registerTeam_Inl:
  assumes "registerTeam users teams requester body = Inl e"
  shows "status_code e = 400 \<or>
     (e = registration_server_error \<and> (\<exists>l. body_members body = NonArray l))"
proof (cases "memberUserIds users teams (body_members body)")
  case (Inl refused)
  from assms have "status_code e = 400 \<or> e = refused"
    by (auto simp: registerTeam_def Let_def Inl split: if_splits)
  moreover from memberUserIds_Inl [OF Inl]
  have "status_code refused = 400 \<or>
     (refused = registration_server_error \<and> (\<exists>l. body_members body = NonArray l))"
    by auto
  ultimately show ?thesis by blast
next
  case (Inr ids)
  from assms have "status_code e = 400"
    by (auto simp: registerTeam_def Let_def Inr split: if_splits sum.splits save_error.splits)
  then show ?thesis by simp
qed

lemma apply_Register_Inl:
  "registerTeam users teams requester body = Inl e \<Longrightarrow>
     apply_operation teams (Register users requester body) = teams"
  by simp

lemma apply_Register_Inr:
  "registerTeam users teams requester body = Inr (teams', t) \<Longrightarrow>
     apply_operation teams (Register users requester body) = teams @ [t]"
  using registerTeam_Inr [of users teams requester body teams' t] by simp

section \<open>Refused registrations\<close>

lemma register_requester_in_team:
  assumes "find (leader_or_member requester) teams \<noteq> None"
  shows "registerTeam users teams requester body =
     Inl (if find (\<lambda>t. teamName t = trim (body_teamName body)) teams \<noteq> None
          then team_name_exists else already_registered)"
  using assms by (simp add: registerTeam_def Let_def)

lemma memberCount_Array:
  "body_members body = Array ms \<Longrightarrow> memberCount body = Number (real (length ms))"
  by (simp add: memberCount_def)

lemma memberCount_Falsy: "body_members body = Falsy \<Longrightarrow> memberCount body = Number 0"
  by (simp add: memberCount_def)

lemma size_checks_Number:
  "(body_teamSize body = ''Solo'' \<and> greater_than (Number (real n)) 0 \<or>
    body_teamSize body = ''Duo'' \<and> Number (real n) \<noteq> Number 1 \<or>
    body_teamSize body = ''Team'' \<and>
      (less_than (Number (real n)) 2 \<or> greater_than (Number (real n)) 4)) =
   (\<not> size_class_bound (body_teamSize body) n)"
  by (auto simp: size_class_bound_def greater_than_def less_than_def ToNumber_def)

lemma register_size_violation:
  assumes "memberCount body = Number (real n)"
    and "\<not> size_class_bound (body_teamSize body) n"
  shows "registerTeam users teams requester body =
     Inl (if find (\<lambda>t. teamName t = trim (body_teamName body)) teams \<noteq> None
          then team_name_exists
          else if find (leader_or_member requester) teams \<noteq> None then already_registered
          else if body_teamSize body = ''Solo'' then solo_rejected
          else if body_teamSize body = ''Duo'' then duo_rejected
          else team_rejected)"
  using assms(2) size_checks_Number [of body n]
  by (auto simp: registerTeam_def Let_def assms(1))

lemma in_team_filter:
  assumes "u \<in> set ids" and "find (leader_or_member u) teams \<noteq> None"
  shows "filter (any_in_team ids) teams \<noteq> []"
proof -
  from assms(2) obtain x where x: "x \<in> set teams" "leader_or_member u x"
    by (auto simp: find_None_filter filter_empty_conv)
  with assms(1) have "any_in_team ids x"
    by (auto simp: leader_or_member_def any_in_team_def list_ex_iff)
  with x(1) show ?thesis
    by (auto simp: filter_empty_conv)
qed

lemma register_member_in_team:
  assumes "find (\<lambda>t. teamName t = trim (body_teamName body)) teams = None"
    and "find (leader_or_member requester) teams = None"
    and "size_class_bound (body_teamSize body) (length ms)"
    and "body_members body = Array ms"
    and "length (find_member_users users ms) = length ms"
    and "u \<in> set (find_member_users users ms)"
    and "find (leader_or_member (user_id u)) teams \<noteq> None"
  shows "registerTeam users teams requester body = Inl members_in_team"
proof -
  from assms(6) have ms: "ms \<noteq> []"
    by (auto simp: find_member_users_def)
  from assms(6) have "user_id u \<in> set (map user_id (find_member_users users ms))"
    by simp
  from in_team_filter [OF this assms(7)]
  have "filter (any_in_team (map user_id (find_member_users users ms))) teams \<noteq> []" .
  with assms(5) ms have "memberUserIds users teams (Array ms) = Inl members_in_team"
    by (simp add: memberUserIds_def Let_def)
  with assms(1-4) size_checks_Number [of body "length ms"] show ?thesis
    by (simp add: registerTeam_def Let_def memberCount_Array)
qed

lemma register_member_in_team_refused:
  assumes "body_members body = Array ms"
    and "u \<in> set (find_member_users users ms)"
    and "find (leader_or_member (user_id u)) teams \<noteq> None"
  shows "\<exists>e. registerTeam users teams requester body = Inl e \<and> status_code e = 400"
proof (cases "registerTeam users teams requester body")
  case (Inl e)
  with registerTeam_Inl [OF Inl] assms(1) show ?thesis by auto
next
  case (Inr r)
  obtain teams' t where "r = (teams', t)" by (cases r)
  with Inr have ok: "registerTeam users teams requester body = Inr (teams', t)" by simp
  note facts = registerTeam_Inr [OF ok]
  from facts assms(1,2) have mem: "user_id u \<in> set (members t)" by simp
  then have "members t \<noteq> []" by auto
  with facts have "filter (any_in_team (members t)) teams = []" by blast
  with in_team_filter [OF mem assms(3)] show ?thesis by simp
qed

section \<open>One team per user\<close>

lemma register_fresh:
  assumes ok: "registerTeam users teams requester body = Inr (teams', t)"
    and u: "leader_or_member u t"
  shows "filter (leader_or_member u) teams = []"
proof (cases "u = requester")
  case True
  with registerTeam_Inr [OF ok] show ?thesis by simp
next
  case False
  with u have mem: "u \<in> set (members t)"
    using registerTeam_Inr [OF ok] by (auto simp: leader_or_member_def)
  then have "members t \<noteq> []" by auto
  with registerTeam_Inr [OF ok] have none: "filter (any_in_team (members t)) teams = []"
    by blast
  show ?thesis
  proof (rule ccontr)
    assume "filter (leader_or_member u) teams \<noteq> []"
    then have "find (leader_or_member u) teams \<noteq> None"
      by (simp add: find_None_filter)
    from in_team_filter [OF mem this] none show False by simp
  qed
qed

lemma uploadPayment_cases:
  "fst (snd (uploadPayment teams requester teamId file env)) = teams \<or>
   (teamId < length teams \<and>
    (\<exists>u c. fst (snd (uploadPayment teams requester teamId file env)) =
       teams[teamId := (teams ! teamId)\<lparr>paymentScreenshot := Some u,
                                        paymentScreenshotCloudinaryId := Some c,
                                        paymentStatus := ''pending''\<rparr>]))"
  by (auto simp: uploadPayment_def find_owned_team_def Let_def
      split: option.splits outcome.splits prod.splits if_splits)

lemma setPaymentStatus_cases:
  "snd (setPaymentStatus teams teamId s) = teams \<or>
   (teamId < length teams \<and> s \<in> set [''pending'', ''verified'', ''rejected''] \<and>
    snd (setPaymentStatus teams teamId s) =
       teams[teamId := (teams ! teamId)\<lparr>paymentStatus := s\<rparr>])"
  by (simp add: setPaymentStatus_def)

lemma apply_operation_one_team:
  assumes "length (filter (leader_or_member u) teams) \<le> 1"
  shows "length (filter (leader_or_member u) (apply_operation teams x)) \<le> 1"
proof (cases x)
  case (Register users requester body)
  show ?thesis
  proof (cases "registerTeam users teams requester body")
    case (Inl e)
    with Register assms show ?thesis by simp
  next
    case (Inr r)
    obtain teams' t where r: "r = (teams', t)" by (cases r)
    from Inr r have ok: "registerTeam users teams requester body = Inr (teams', t)" by simp
    have teams': "teams' = teams @ [t]" using registerTeam_Inr [OF ok] by simp
    show ?thesis
    proof (cases "leader_or_member u t")
      case True
      from register_fresh [OF ok True] show ?thesis
        using Register Inr r teams' by simp
    next
      case False
      then show ?thesis using Register Inr r teams' assms by simp
    qed
  qed
next
  case (UploadPayment requester teamId f env)
  from uploadPayment_cases [of teams requester teamId f env] show ?thesis
    using UploadPayment assms
    by (auto simp: length_filter_update leader_or_member_def)
next
  case (SetPaymentStatus teamId s)
  from setPaymentStatus_cases [of teams teamId s] show ?thesis
    using SetPaymentStatus assms
    by (auto simp: length_filter_update leader_or_member_def)
qed

lemma run_one_team: "length (filter (leader_or_member u) (run ops)) \<le> 1"
proof (induction ops rule: rev_induct)
  case Nil
  show ?case by (simp add: run_Nil)
next
  case (snoc x ops)
  then show ?case unfolding run_snoc by (rule apply_operation_one_team)
qed

lemma scenario_register_falcons:
  "registerTeam scenario_users [] 101 falcons_body = Inr ([falcons], falcons)"
  by (simp add: registerTeam_def Let_def falcons_body_def falcons_def
      memberCount_def memberUserIds_def greater_than_def less_than_def ToNumber_def
      save_new_def schema_valid_def trim_def is_space_def
      String_of_number.simps digit_char_def padStart_def eval_nat_numeral)

lemma run_falcons: "run [Register scenario_users 101 falcons_body] = [falcons]"
  by (simp add: run_def scenario_register_falcons)

section \<open>The size-class bound\<close>

lemma size_class_violation:
  "(\<not> size_class_bound sizeClass n) =
     (sizeClass = ''Solo'' \<and> n > 0 \<or> sizeClass = ''Duo'' \<and> n \<noteq> 1 \<or>
      sizeClass = ''Team'' \<and> (n < 2 \<or> n > 4))"
  by (auto simp: size_class_bound_def)

lemma apply_operation_invariant:
  assumes reg: "\<And>users requester body teams' t.
            x = Register users requester body \<Longrightarrow>
            registerTeam users teams requester body = Inr (teams', t) \<Longrightarrow> P t"
    and upl: "\<And>t u c. P t \<Longrightarrow>
            P (t\<lparr>paymentScreenshot := Some u, paymentScreenshotCloudinaryId := Some c,
                paymentStatus := ''pending''\<rparr>)"
    and st: "\<And>t s. s \<in> set [''pending'', ''verified'', ''rejected''] \<Longrightarrow> P t \<Longrightarrow>
            P (t\<lparr>paymentStatus := s\<rparr>)"
    and inv: "list_all P teams"
  shows "list_all P (apply_operation teams x)"
proof (cases x)
  case (Register users requester body)
  show ?thesis
  proof (cases "registerTeam users teams requester body")
    case (Inl e)
    with Register inv show ?thesis by simp
  next
    case (Inr r)
    obtain teams' t where r: "r = (teams', t)" by (cases r)
    from Inr r have ok: "registerTeam users teams requester body = Inr (teams', t)" by simp
    from reg [OF Register ok] inv show ?thesis
      using Register apply_Register_Inr [OF ok] by simp
  qed
next
  case (UploadPayment requester teamId f env)
  from uploadPayment_cases [of teams requester teamId f env] show ?thesis
  proof (elim disjE conjE exE)
    assume same: "fst (snd (uploadPayment teams requester teamId f env)) = teams"
    show ?thesis unfolding UploadPayment apply_operation.simps same by (rule inv)
  next
    fix u c
    assume i: "teamId < length teams"
      and eq: "fst (snd (uploadPayment teams requester teamId f env)) =
           teams[teamId := (teams ! teamId)\<lparr>paymentScreenshot := Some u,
              paymentScreenshotCloudinaryId := Some c, paymentStatus := ''pending''\<rparr>]"
    from inv i have "P (teams ! teamId)" by (simp add: list_all_length)
    from list_all_update [where P = P, OF inv upl [OF this]] show ?thesis
      unfolding UploadPayment apply_operation.simps eq .
  qed
next
  case (SetPaymentStatus teamId s)
  from setPaymentStatus_cases [of teams teamId s] show ?thesis
  proof (elim disjE conjE)
    assume same: "snd (setPaymentStatus teams teamId s) = teams"
    show ?thesis unfolding SetPaymentStatus apply_operation.simps same by (rule inv)
  next
    assume i: "teamId < length teams"
      and s: "s \<in> set [''pending'', ''verified'', ''rejected'']"
      and eq: "snd (setPaymentStatus teams teamId s) =
           teams[teamId := (teams ! teamId)\<lparr>paymentStatus := s\<rparr>]"
    from inv i have "P (teams ! teamId)" by (simp add: list_all_length)
    from list_all_update [where P = P, OF inv st [OF s this]] show ?thesis
      unfolding SetPaymentStatus apply_operation.simps eq .
  qed
qed

lemma run_invariant:
  assumes reg: "\<And>users teams requester body teams' t.
            registerTeam users teams requester body = Inr (teams', t) \<Longrightarrow> P t"
    and upl: "\<And>t u c. P t \<Longrightarrow>
            P (t\<lparr>paymentScreenshot := Some u, paymentScreenshotCloudinaryId := Some c,
                paymentStatus := ''pending''\<rparr>)"
    and st: "\<And>t s. s \<in> set [''pending'', ''verified'', ''rejected''] \<Longrightarrow> P t \<Longrightarrow>
            P (t\<lparr>paymentStatus := s\<rparr>)"
  shows "list_all P (run ops)"
proof (induction ops rule: rev_induct)
  case Nil
  show ?case by (simp add: run_Nil)
next
  case (snoc x ops)
  show ?case unfolding run_snoc
  proof (rule apply_operation_invariant [where P = P])
    fix users requester body teams' t
    assume "registerTeam users (run ops) requester body = Inr (teams', t)"
    then show "P t" by (rule reg)
  next
    fix t u c
    assume "P t"
    then show "P (t\<lparr>paymentScreenshot := Some u, paymentScreenshotCloudinaryId := Some c,
                paymentStatus := ''pending''\<rparr>)"
      by (rule upl)
  next
    fix t s
    assume "s \<in> set [''pending'', ''verified'', ''rejected'']" and "P t"
    then show "P (t\<lparr>paymentStatus := s\<rparr>)" by (rule st)
  next
    show "list_all P (run ops)" by (rule snoc)
  qed
qed

lemma registerTeam_Inr_checks:
  assumes "registerTeam users teams requester body = Inr (teams', t)"
  shows "\<not> (body_teamSize body = ''Solo'' \<and> greater_than (memberCount body) 0)"
    and "\<not> (body_teamSize body = ''Duo'' \<and> memberCount body \<noteq> Number 1)"
    and "\<not> (body_teamSize body = ''Team'' \<and>
           (less_than (memberCount body) 2 \<or> greater_than (memberCount body) 4))"
    and "memberUserIds users teams (body_members body) = Inr (members t)"
  using assms
  by (auto simp: registerTeam_def Let_def split: if_splits sum.splits save_error.splits)

text \<open>A request whose \<open>members\<close> value is absent or an array passes the size check only
  with a member count inside the bound of its class, and the stored team has as many
  members as the request has entries.\<close>

lemma registered_size_class_array:
  assumes ok: "registerTeam users teams requester body = Inr (teams', t)"
    and arr: "body_members body = Falsy \<or> (\<exists>ms. body_members body = Array ms)"
  shows "size_class_bound (teamSize t) (length (members t))"
proof -
  note facts = registerTeam_Inr [OF ok]
  note checks = registerTeam_Inr_checks [OF ok]
  from facts have size: "teamSize t = body_teamSize body" by simp
  from arr show ?thesis
  proof (elim disjE exE)
    assume falsy: "body_members body = Falsy"
    with facts have "members t = []" by simp
    moreover from checks(1-3) size_checks_Number [of body 0] memberCount_Falsy [OF falsy]
    have "size_class_bound (body_teamSize body) 0" by auto
    ultimately show ?thesis using size by simp
  next
    fix ms
    assume array: "body_members body = Array ms"
    from checks(4) array have "length (members t) = length ms"
      by (simp add: memberUserIds_length)
    moreover from checks(1-3) size_checks_Number [of body "length ms"]
      memberCount_Array [OF array]
    have "size_class_bound (body_teamSize body) (length ms)" by auto
    ultimately show ?thesis using size by simp
  qed
qed

text \<open>
  A value that is not an array gets through the size check and past the block that
  verifies the members exactly when its \<open>length\<close> converts to \<open>NaN\<close> (as \<open>undefined\<close>
  does) and the size class is not Duo: the stored team then has no members, whatever its
  class. So a stored team either keeps the bound of its class or is a team of class
  \<open>Team\<close> without members.
\<close>

lemma registered_size_class:
  assumes ok: "registerTeam users teams requester body = Inr (teams', t)"
  shows "teamSize t \<in> set [''Solo'', ''Duo'', ''Team''] \<and>
     (size_class_bound (teamSize t) (length (members t)) \<or>
      teamSize t = ''Team'' \<and> members t = [])"
proof -
  note facts = registerTeam_Inr [OF ok]
  note checks = registerTeam_Inr_checks [OF ok]
  from facts have enum: "teamSize t \<in> set [''Solo'', ''Duo'', ''Team'']"
    by (auto simp: schema_valid_def)
  have "size_class_bound (teamSize t) (length (members t)) \<or>
      teamSize t = ''Team'' \<and> members t = []"
  proof (cases "body_members body")
    case Falsy
    with registered_size_class_array [OF ok] show ?thesis by simp
  next
    case (Array ms)
    with registered_size_class_array [OF ok] show ?thesis by simp
  next
    case (NonArray l)
    with facts have none: "members t = []" and size: "teamSize t = body_teamSize body"
      by simp_all
    from NonArray have count: "memberCount body = l"
      by (simp add: memberCount_def)
    from checks(4) NonArray have "\<not> greater_than l 0"
      by (auto simp: memberUserIds_def split: if_splits)
    with checks(2) enum size none show ?thesis
      unfolding count
      by (auto simp: size_class_bound_def greater_than_def ToNumber_def)
  qed
  with enum show ?thesis by simp
qed

lemma run_size_class:
  "list_all (\<lambda>t. teamSize t \<in> set [''Solo'', ''Duo'', ''Team''] \<and>
      (size_class_bound (teamSize t) (length (members t)) \<or>
       teamSize t = ''Team'' \<and> members t = [])) (run ops)"
  by (rule run_invariant) (simp_all add: registered_size_class del: set_simps)

text \<open>In a history all of whose registrations send an array or nothing as \<open>members\<close>,
  every stored team keeps the bound of its class.\<close>

lemma run_size_class_array:
  assumes "list_all array_or_absent ops"
  shows "list_all (\<lambda>t. teamSize t \<in> set [''Solo'', ''Duo'', ''Team''] \<and>
      size_class_bound (teamSize t) (length (members t))) (run ops)"
  using assms
proof (induction ops rule: rev_induct)
  case Nil
  show ?case by (simp add: run_Nil)
next
  case (snoc x ops)
  then have inv: "list_all (\<lambda>t. teamSize t \<in> set [''Solo'', ''Duo'', ''Team''] \<and>
      size_class_bound (teamSize t) (length (members t))) (run ops)"
    and x: "array_or_absent x"
    by simp_all
  show ?case unfolding run_snoc
  proof (rule apply_operation_invariant [where P = "\<lambda>t. teamSize t \<in> set [''Solo'', ''Duo'', ''Team''] \<and>
      size_class_bound (teamSize t) (length (members t))"])
    fix users requester body teams' t
    assume reg: "x = Register users requester body"
      and ok: "registerTeam users (run ops) requester body = Inr (teams', t)"
    from x reg have "body_members body = Falsy \<or> (\<exists>ms. body_members body = Array ms)"
      by (simp add: array_or_absent_def split: members_value.splits)
    from registered_size_class_array [OF ok this] registered_size_class [OF ok]
    show "teamSize t \<in> set [''Solo'', ''Duo'', ''Team''] \<and>
      size_class_bound (teamSize t) (length (members t))"
      by simp
  next
    show "list_all (\<lambda>t. teamSize t \<in> set [''Solo'', ''Duo'', ''Team''] \<and>
      size_class_bound (teamSize t) (length (members t))) (run ops)"
      by (rule inv)
  qed simp_all
qed

section \<open>The claims about registration\<close>

text \<open>
  C1. In the team collection reached by any sequence of requests from the empty
  collection (registrations, with uploads and status changes in between), every user id
  is leader or member of at most one team. A registration whose requester is already
  leader or member of a team is refused with a 400 answer: the conflict on the team name
  when that check, which comes first, fires, and otherwise \<open>You are already registered in
  a team\<close>. A registration one of whose resolved member users is already in a team is
  always refused with a 400 answer, and when the checks before it pass (name free,
  requester free, member count right, every entry resolved) the answer is \<open>One or more
  members are already in a team\<close>.
\<close>

theorem one_team_per_user:
  "length (filter (leader_or_member u) (run ops)) \<le> 1 \<and>
   (find (leader_or_member requester) teams \<noteq> None \<longrightarrow>
      registerTeam users teams requester body =
        Inl (if find (\<lambda>t. teamName t = trim (body_teamName body)) teams \<noteq> None
             then team_name_exists else already_registered)) \<and>
   (body_members body = Array ms \<and> m \<in> set (find_member_users users ms) \<and>
    find (leader_or_member (user_id m)) teams \<noteq> None \<longrightarrow>
      (\<exists>e. registerTeam users teams requester body = Inl e \<and> status_code e = 400) \<and>
      (find (\<lambda>t. teamName t = trim (body_teamName body)) teams = None \<and>
       find (leader_or_member requester) teams = None \<and>
       size_class_bound (body_teamSize body) (length ms) \<and>
       length (find_member_users users ms) = length ms \<longrightarrow>
         registerTeam users teams requester body = Inl members_in_team))"
  using run_one_team [of u ops]
    register_requester_in_team [of requester teams users body]
    register_member_in_team_refused [of body ms m users teams requester]
    register_member_in_team [of body teams requester ms users m]
  by blast

theorem one_team_per_user_witness:
  "length (filter (leader_or_member 101) (run [Register scenario_users 101 falcons_body])) \<le> 1 \<and>
   find (leader_or_member 101) [falcons] \<noteq> None \<and>
   registerTeam scenario_users [falcons] 101 (eagles_body [entry_of u2]) =
     Inl already_registered \<and>
   u1 \<in> set (find_member_users scenario_users [entry_of u1]) \<and>
   find (leader_or_member (user_id u1)) [falcons] \<noteq> None \<and>
   registerTeam scenario_users [falcons] 102 (eagles_body [entry_of u1]) =
     Inl members_in_team"
  using
    one_team_per_user [where u = 101 and ops = "[Register scenario_users 101 falcons_body]"
      and requester = 101 and teams = "[falcons]" and users = scenario_users
      and body = "eagles_body [entry_of u2]" and ms = "[entry_of u2]" and m = u2]
    one_team_per_user [where u = 101 and ops = "[Register scenario_users 101 falcons_body]"
      and requester = 102 and teams = "[falcons]" and users = scenario_users
      and body = "eagles_body [entry_of u1]" and ms = "[entry_of u1]" and m = u1]
  by (simp add: scenario_users_def u1_def u2_def u3_def falcons_def eagles_body_def
      entry_of_def leader_or_member_def trim_def is_space_def find_member_users_def
      matches_entry_def size_class_bound_def)

text \<open>
  C4. The size check reads \<open>members.length\<close> without asking whether \<open>members\<close> is an
  array. The second user, with no team yet, sends a request of class \<open>Team\<close> whose
  \<open>members\<close> property is the empty object \<open>{}\<close>: the length is \<open>undefined\<close>, neither
  \<open>undefined < 2\<close> nor \<open>undefined > 4\<close> holds, the block that verifies the members is
  skipped, and a team of class \<open>Team\<close> with no members is stored, outside the bound of
  two to four members of its class. The same request with the empty array \<open>[]\<close> is
  refused with \<open>Teams must have 2-4 additional members\<close> and stores nothing.
\<close>

theorem team_stored_without_members:
  "registerTeam scenario_users [] 102 eagles_object_body =
     Inr ([eagles_of_none], eagles_of_none) \<and>
   run [Register scenario_users 102 eagles_object_body] = [eagles_of_none] \<and>
   teamSize eagles_of_none = ''Team'' \<and>
   members eagles_of_none = [] \<and>
   \<not> size_class_bound (teamSize eagles_of_none) (length (members eagles_of_none)) \<and>
   body_members eagles_object_body = NonArray Undefined \<and>
   body_teamSize eagles_object_body = ''Team'' \<and>
   registerTeam scenario_users [] 102 (eagles_body []) = Inl team_rejected \<and>
   run [Register scenario_users 102 (eagles_body [])] = []"
proof -
  have stored: "registerTeam scenario_users [] 102 eagles_object_body =
     Inr ([eagles_of_none], eagles_of_none)"
    by (simp add: registerTeam_def Let_def eagles_object_body_def eagles_of_none_def
        memberCount_def memberUserIds_def greater_than_def less_than_def ToNumber_def
        save_new_def schema_valid_def trim_def is_space_def
        String_of_number.simps digit_char_def padStart_def eval_nat_numeral)
  have refused: "registerTeam scenario_users [] 102 (eagles_body []) = Inl team_rejected"
    by (simp add: registerTeam_def Let_def eagles_body_def memberCount_def
        greater_than_def less_than_def ToNumber_def)
  from stored have "run [Register scenario_users 102 eagles_object_body] = [eagles_of_none]"
    by (simp add: run_def)
  moreover from refused have "run [Register scenario_users 102 (eagles_body [])] = []"
    by (simp add: run_def)
  moreover have "\<not> size_class_bound (teamSize eagles_of_none) (length (members eagles_of_none))"
    by (simp add: eagles_of_none_def size_class_bound_def)
  ultimately show ?thesis
    using stored refused by (simp add: eagles_of_none_def eagles_object_body_def)
qed

text \<open>
  C10. The route does not look for the requester among the member entries. The first
  user, with no team yet, sends a Duo request whose single member entry carries that
  user's own email and registration number: every check passes, and the team that is
  stored has the requester as leader and again in its member list.
\<close>

theorem leader_listed_as_member:
  "registerTeam scenario_users [] (user_id u1) (eagles_body [entry_of u1]) =
     Inr ([eagles_of_one], eagles_of_one) \<and>
   body_teamSize (eagles_body [entry_of u1]) = ''Duo'' \<and>
   leader eagles_of_one = user_id u1 \<and>
   leader eagles_of_one \<in> set (members eagles_of_one)"
  by (simp add: registerTeam_def Let_def eagles_body_def eagles_of_one_def entry_of_def
      scenario_users_def u1_def u2_def u3_def
      memberCount_def memberUserIds_def greater_than_def less_than_def ToNumber_def
      find_member_users_def matches_entry_def any_in_team_def
      save_new_def schema_valid_def trim_def is_space_def
      String_of_number.simps digit_char_def padStart_def eval_nat_numeral)

section \<open>The upload route\<close>

lemma compress_Returns:
  "sharp_result env = Returns b \<Longrightarrow> upload_response env = Returns r \<Longrightarrow>
   compressAndUploadImage f env =
     (Returns \<lparr>success = True, url = secure_url r, publicId = public_id r,
               originalSize = file_size f, compressedSize = bytes r,
               cloudinaryId = public_id r\<rparr>, [Upload b])"
  by (simp add: compressAndUploadImage_def)

lemma compress_Throws:
  "(fst (compressAndUploadImage f env) = Throws) =
     (sharp_result env = Throws \<or> upload_response env = Throws)"
  by (simp add: compressAndUploadImage_def split: outcome.splits)

lemma uploadPayment_success:
  assumes "uploadPayment teams requester teamId file env = (resp, teams', calls)"
    and "status_code resp = 200"
  shows "teamId < length teams \<and> leader_or_member requester (teams ! teamId) \<and>
     (\<exists>b r. sharp_result env = Returns b \<and> upload_response env = Returns r \<and>
        teams' = teams[teamId := (teams ! teamId)
                   \<lparr>paymentScreenshot := Some (secure_url r),
                    paymentScreenshotCloudinaryId := Some (public_id r),
                    paymentStatus := ''pending''\<rparr>])"
  using assms
  by (auto simp: uploadPayment_def find_owned_team_def Let_def compressAndUploadImage_def
      split: option.splits outcome.splits prod.splits if_splits)

text \<open>The handles whose deletion the route requests before it processes the new image.\<close>

lemma uploadPayment_ok:
  assumes "find_owned_team teams teamId requester = Some t"
    and "sharp_result env = Returns b" and "upload_response env = Returns r"
  shows "uploadPayment teams requester teamId (Some f) env =
     (upload_succeeded,
      teams[teamId := t\<lparr>paymentScreenshot := Some (secure_url r),
                        paymentScreenshotCloudinaryId := Some (public_id r),
                        paymentStatus := ''pending''\<rparr>],
      (case paymentScreenshotCloudinaryId t of
         None \<Rightarrow> []
       | Some old \<Rightarrow> if old = [] then [] else [Destroy old]) @ [Upload b])"
  using assms
  by (simp add: uploadPayment_def Let_def compress_Returns deleteImageFromCloudinary_def
      split: option.splits outcome.splits)

lemma uploadPayment_not_owner:
  assumes "find_owned_team teams teamId requester = None"
  shows "uploadPayment teams requester teamId (Some f) env =
     (not_found_or_unauthorized, teams, [])"
  using assms by (simp add: uploadPayment_def)

lemma uploadPayment_throws:
  assumes "find_owned_team teams teamId requester = Some t"
    and "sharp_result env = Throws \<or> upload_response env = Throws"
  shows "uploadPayment teams requester teamId (Some f) env =
     (upload_server_error, teams,
      (case paymentScreenshotCloudinaryId t of
         None \<Rightarrow> []
       | Some old \<Rightarrow> if old = [] then [] else [Destroy old]) @
      (case sharp_result env of Throws \<Rightarrow> [] | Returns b \<Rightarrow> [Upload b]))"
  using assms
  by (auto simp: uploadPayment_def Let_def compressAndUploadImage_def
      deleteImageFromCloudinary_def split: option.splits outcome.splits)

lemma find_owned_team_Some:
  "find_owned_team teams teamId requester = Some t \<Longrightarrow>
     teamId < length teams \<and> t = teams ! teamId"
  by (auto simp: find_owned_team_def split: if_splits)

text \<open>
  C2. An upload that succeeds (answer 200) leaves the payment status of the team at
  \<open>pending\<close>. It succeeds for every team the requester leads or belongs to, whenever a
  file is attached and compression and upload return, whatever the payment status of
  the team was before.
\<close>

theorem upload_resets_payment_status:
  "(uploadPayment teams requester teamId file env = (resp, teams', calls) \<and>
    status_code resp = 200 \<longrightarrow>
      teamId < length teams' \<and> paymentStatus (teams' ! teamId) = ''pending'') \<and>
   (find_owned_team teams teamId requester = Some t \<and>
    sharp_result env = Returns b \<and> upload_response env = Returns r \<longrightarrow>
      status_code (fst (uploadPayment teams requester teamId (Some f) env)) = 200 \<and>
      paymentStatus (fst (snd (uploadPayment teams requester teamId (Some f) env)) ! teamId)
        = ''pending'')"
proof -
  have "teamId < length teams' \<and> paymentStatus (teams' ! teamId) = ''pending''"
    if "uploadPayment teams requester teamId file env = (resp, teams', calls)"
      and "status_code resp = 200"
    using uploadPayment_success [OF that] by auto
  moreover have "status_code (fst (uploadPayment teams requester teamId (Some f) env)) = 200 \<and>
      paymentStatus (fst (snd (uploadPayment teams requester teamId (Some f) env)) ! teamId)
        = ''pending''"
    if "find_owned_team teams teamId requester = Some t"
      and "sharp_result env = Returns b" and "upload_response env = Returns r"
    using uploadPayment_ok [OF that, of f] find_owned_team_Some [OF that(1)] by simp
  ultimately show ?thesis by blast
qed

theorem upload_resets_payment_status_witness:
  "fst (uploadPayment [falcons\<lparr>paymentStatus := ''verified''\<rparr>] 101 0 (Some proof_file)
          storage_ok) = upload_succeeded \<and>
   paymentStatus (fst (snd (uploadPayment [falcons\<lparr>paymentStatus := ''verified''\<rparr>] 101 0
          (Some proof_file) storage_ok)) ! 0) = ''pending'' \<and>
   paymentStatus (fst (snd (uploadPayment [falcons\<lparr>paymentStatus := ''rejected''\<rparr>] 101 0
          (Some proof_file) storage_ok)) ! 0) = ''pending'' \<and>
   paymentStatus (fst (snd (uploadPayment [falcons] 101 0
          (Some proof_file) storage_ok)) ! 0) = ''pending''"
proof -
  have own: "find_owned_team [falcons\<lparr>paymentStatus := s\<rparr>] 0 101 =
      Some (falcons\<lparr>paymentStatus := s\<rparr>)" for s
    by (simp add: find_owned_team_def leader_or_member_def falcons_def)
  have env: "sharp_result storage_ok = Returns [82, 73, 70, 70]"
    "upload_response storage_ok =
       Returns \<lparr>secure_url = ''https://res.cloudinary.com/demo/image/upload/proof-2.webp'',
                public_id = ''hackathon/payment-proofs/proof-2'', bytes = 51200\<rparr>"
    by (simp_all add: storage_ok_def)
  have same: "falcons\<lparr>paymentStatus := ''pending''\<rparr> = falcons"
    by (simp add: falcons_def)
  have first: "fst (uploadPayment [falcons\<lparr>paymentStatus := ''verified''\<rparr>] 101 0
      (Some proof_file) storage_ok) = upload_succeeded"
    using uploadPayment_ok [OF own env, of "''verified''" proof_file] by simp
  have reset: "paymentStatus (fst (snd (uploadPayment [falcons\<lparr>paymentStatus := s\<rparr>] 101 0
      (Some proof_file) storage_ok)) ! 0) = ''pending''" for s
    using upload_resets_payment_status
      [where teams = "[falcons\<lparr>paymentStatus := s\<rparr>]" and requester = 101
        and teamId = 0 and env = storage_ok and f = proof_file
        and t = "falcons\<lparr>paymentStatus := s\<rparr>" and b = "[82, 73, 70, 70]"
        and r = "\<lparr>secure_url = ''https://res.cloudinary.com/demo/image/upload/proof-2.webp'',
                public_id = ''hackathon/payment-proofs/proof-2'', bytes = 51200\<rparr>"]
      own [of s] env
    by simp
  from reset [of "''verified''"] reset [of "''rejected''"] reset [of "''pending''"] first
  show ?thesis unfolding same by simp
qed

lemma scenario_upload:
  "uploadPayment [falcons\<lparr>paymentStatus := s\<rparr>] 101 0 (Some proof_file) storage_ok =
     (upload_succeeded,
      [falcons\<lparr>paymentScreenshot :=
                 Some ''https://res.cloudinary.com/demo/image/upload/proof-2.webp'',
               paymentScreenshotCloudinaryId := Some ''hackathon/payment-proofs/proof-2'',
               paymentStatus := ''pending''\<rparr>],
      [Upload [82, 73, 70, 70]])"
proof -
  have own: "find_owned_team [falcons\<lparr>paymentStatus := s\<rparr>] 0 101 =
      Some (falcons\<lparr>paymentStatus := s\<rparr>)"
    by (simp add: find_owned_team_def leader_or_member_def falcons_def)
  have env: "sharp_result storage_ok = Returns [82, 73, 70, 70]"
    "upload_response storage_ok =
       Returns \<lparr>secure_url = ''https://res.cloudinary.com/demo/image/upload/proof-2.webp'',
                public_id = ''hackathon/payment-proofs/proof-2'', bytes = 51200\<rparr>"
    by (simp_all add: storage_ok_def)
  show ?thesis
    using uploadPayment_ok [OF own env, of proof_file] by (simp add: falcons_def)
qed

text \<open>
  C3. For a request that carries a file, a requester who is neither leader nor member
  of an existing team gets the answer 404 \<open>Team not found or you are not authorized\<close>,
  the team collection stays as it was and the storage provider is not called. The same
  answer is given when no team has the id: the route makes one query for both cases.
  Without a file the answer, before any team is looked up, is 400 \<open>No file uploaded\<close>.
\<close>

theorem upload_by_outsider_refused:
  "(teamId < length teams \<and> \<not> leader_or_member requester (teams ! teamId) \<longrightarrow>
      uploadPayment teams requester teamId (Some f) env =
        (not_found_or_unauthorized, teams, [])) \<and>
   (\<not> teamId < length teams \<longrightarrow>
      uploadPayment teams requester teamId (Some f) env =
        (not_found_or_unauthorized, teams, [])) \<and>
   uploadPayment teams requester teamId None env = (no_file_uploaded, teams, [])"
  by (simp add: uploadPayment_def find_owned_team_def)

theorem upload_by_outsider_refused_witness:
  "0 < length [falcons] \<and> \<not> leader_or_member 102 ([falcons] ! 0) \<and>
   uploadPayment [falcons] 102 0 (Some proof_file) storage_ok =
     (not_found_or_unauthorized, [falcons], []) \<and>
   \<not> 7 < length [falcons] \<and>
   uploadPayment [falcons] 102 7 (Some proof_file) storage_ok =
     (not_found_or_unauthorized, [falcons], [])"
  using
    upload_by_outsider_refused [where teams = "[falcons]" and teamId = 0 and requester = 102
      and f = proof_file and env = storage_ok]
    upload_by_outsider_refused [where teams = "[falcons]" and teamId = 7 and requester = 102
      and f = proof_file and env = storage_ok]
  by (simp add: leader_or_member_def falcons_def)

text \<open>Against C3 as it is worded: the answer to an outsider and the answer for a team
  that does not exist are one and the same response, not two distinct errors.\<close>

theorem upload_outsider_same_as_missing_team:
  "0 < length [falcons] \<and> \<not> leader_or_member 102 ([falcons] ! 0) \<and>
   \<not> 7 < length [falcons] \<and>
   fst (uploadPayment [falcons] 102 0 (Some proof_file) storage_ok) =
   fst (uploadPayment [falcons] 102 7 (Some proof_file) storage_ok)"
  by (simp add: uploadPayment_def find_owned_team_def leader_or_member_def falcons_def)

text \<open>
  C6. When the compression or the upload of the new image throws, the route answers 500
  and the team collection is exactly what it was: the proof reference, the storage
  handle and the payment status of the team keep their values. The deletion of the old
  image, when the team had a non-empty handle, has been requested all the same.
\<close>

theorem upload_failure_leaves_team:
  "(fst (compressAndUploadImage f env) = Throws) =
     (sharp_result env = Throws \<or> upload_response env = Throws) \<and>
   (find_owned_team teams teamId requester = Some t \<and>
    (sharp_result env = Throws \<or> upload_response env = Throws) \<and>
    uploadPayment teams requester teamId (Some f) env = (resp, teams', calls) \<longrightarrow>
      resp = upload_server_error \<and> teams' = teams \<and> teams' ! teamId = t \<and>
      paymentScreenshot (teams' ! teamId) = paymentScreenshot t \<and>
      paymentScreenshotCloudinaryId (teams' ! teamId) = paymentScreenshotCloudinaryId t \<and>
      paymentStatus (teams' ! teamId) = paymentStatus t \<and>
      (\<forall>old. paymentScreenshotCloudinaryId t = Some old \<and> old \<noteq> [] \<longrightarrow>
         Destroy old \<in> set calls))"
proof -
  have "resp = upload_server_error \<and> teams' = teams \<and> teams' ! teamId = t \<and>
      paymentScreenshot (teams' ! teamId) = paymentScreenshot t \<and>
      paymentScreenshotCloudinaryId (teams' ! teamId) = paymentScreenshotCloudinaryId t \<and>
      paymentStatus (teams' ! teamId) = paymentStatus t \<and>
      (\<forall>old. paymentScreenshotCloudinaryId t = Some old \<and> old \<noteq> [] \<longrightarrow>
         Destroy old \<in> set calls)"
    if own: "find_owned_team teams teamId requester = Some t"
      and fails: "sharp_result env = Throws \<or> upload_response env = Throws"
      and res: "uploadPayment teams requester teamId (Some f) env = (resp, teams', calls)"
    using uploadPayment_throws [OF own fails, of f] find_owned_team_Some [OF own] res
    by auto
  with compress_Throws [of f env] show ?thesis by blast
qed

theorem upload_failure_leaves_team_witness:
  "uploadPayment
     [falcons\<lparr>paymentScreenshot := Some ''https://res.cloudinary.com/demo/proof-1.webp'',
              paymentScreenshotCloudinaryId := Some ''hackathon/payment-proofs/proof-1'',
              paymentStatus := ''verified''\<rparr>]
     101 0 (Some proof_file) storage_down =
   (upload_server_error,
    [falcons\<lparr>paymentScreenshot := Some ''https://res.cloudinary.com/demo/proof-1.webp'',
             paymentScreenshotCloudinaryId := Some ''hackathon/payment-proofs/proof-1'',
             paymentStatus := ''verified''\<rparr>],
    [Destroy ''hackathon/payment-proofs/proof-1'', Upload [82, 73, 70, 70]])"
proof -
  let ?t = "falcons\<lparr>paymentScreenshot := Some ''https://res.cloudinary.com/demo/proof-1.webp'',
              paymentScreenshotCloudinaryId := Some ''hackathon/payment-proofs/proof-1'',
              paymentStatus := ''verified''\<rparr>"
  obtain resp teams' calls where
    res: "uploadPayment [?t] 101 0 (Some proof_file) storage_down = (resp, teams', calls)"
    by (cases "uploadPayment [?t] 101 0 (Some proof_file) storage_down")
  have own: "find_owned_team [?t] 0 101 = Some ?t"
    by (simp add: find_owned_team_def leader_or_member_def falcons_def)
  have down: "sharp_result storage_down = Throws \<or> upload_response storage_down = Throws"
    by (simp add: storage_down_def)
  have calls: "calls = [Destroy ''hackathon/payment-proofs/proof-1'', Upload [82, 73, 70, 70]]"
    using uploadPayment_throws [OF own down, of proof_file] res
    by (simp add: storage_down_def storage_ok_def)
  from upload_failure_leaves_team
    [where teams = "[?t]" and teamId = 0 and requester = 101 and t = ?t
      and env = storage_down and f = proof_file and resp = resp and teams' = teams'
      and calls = calls] own down res
  have "resp = upload_server_error \<and> teams' = [?t]" by blast
  with res calls show ?thesis by simp
qed

section \<open>The payment status set by an administrator\<close>

text \<open>
  C7. The route answers 400 \<open>Invalid payment status\<close>, and changes nothing, exactly when
  the requested status is none of \<open>pending\<close>, \<open>verified\<close>, \<open>rejected\<close>. For a status of
  that set and a team that exists it answers 200 and stores the status in that team,
  with no condition on the status the team had.
\<close>

theorem set_payment_status_validated:
  "(fst (setPaymentStatus teams teamId s) = invalid_payment_status) =
     (s \<notin> set [''pending'', ''verified'', ''rejected'']) \<and>
   (status_code (fst (setPaymentStatus teams teamId s)) = 400) =
     (s \<notin> set [''pending'', ''verified'', ''rejected'']) \<and>
   (s \<notin> set [''pending'', ''verified'', ''rejected''] \<longrightarrow>
      snd (setPaymentStatus teams teamId s) = teams) \<and>
   (s \<in> set [''pending'', ''verified'', ''rejected''] \<and> teamId < length teams \<longrightarrow>
      fst (setPaymentStatus teams teamId s) = payment_status_updated \<and>
      snd (setPaymentStatus teams teamId s) =
        teams[teamId := (teams ! teamId)\<lparr>paymentStatus := s\<rparr>] \<and>
      paymentStatus (snd (setPaymentStatus teams teamId s) ! teamId) = s)"
  by (simp add: setPaymentStatus_def)

theorem set_payment_status_validated_witness:
  "setPaymentStatus [falcons] 0 ''verified'' =
     (payment_status_updated, [falcons\<lparr>paymentStatus := ''verified''\<rparr>]) \<and>
   setPaymentStatus [falcons\<lparr>paymentStatus := ''verified''\<rparr>] 0 ''rejected'' =
     (payment_status_updated, [falcons\<lparr>paymentStatus := ''rejected''\<rparr>]) \<and>
   setPaymentStatus [falcons\<lparr>paymentStatus := ''rejected''\<rparr>] 0 ''pending'' =
     (payment_status_updated, [falcons\<lparr>paymentStatus := ''pending''\<rparr>]) \<and>
   setPaymentStatus [falcons] 0 ''approved'' = (invalid_payment_status, [falcons])"
  using
    set_payment_status_validated [where teams = "[falcons]" and teamId = 0
      and s = "''verified''"]
    set_payment_status_validated [where teams = "[falcons\<lparr>paymentStatus := ''verified''\<rparr>]"
      and teamId = 0 and s = "''rejected''"]
    set_payment_status_validated [where teams = "[falcons\<lparr>paymentStatus := ''rejected''\<rparr>]"
      and teamId = 0 and s = "''pending''"]
    set_payment_status_validated [where teams = "[falcons]" and teamId = 0
      and s = "''approved''"]
  by (simp add: prod_eq_iff)

section \<open>The two fields of a payment proof\<close>

lemma run_proof_fields_paired: "list_all proof_fields_paired (run ops)"
proof (rule run_invariant)
  fix users teams requester body teams' t
  assume "registerTeam users teams requester body = Inr (teams', t)"
  from registerTeam_Inr [OF this] show "proof_fields_paired t"
    by (simp add: proof_fields_paired_def)
qed (simp_all add: proof_fields_paired_def)

text \<open>
  C9. In every team of a collection reached from the empty one by registrations, uploads
  and status changes, the proof reference and the storage handle are both null or both
  set. A registration stores both as null, and an upload that succeeds sets both in the
  same update.
\<close>

theorem proof_fields_paired_always:
  "list_all proof_fields_paired (run ops) \<and>
   (registerTeam users teams requester body = Inr (teams', t) \<longrightarrow>
      paymentScreenshot t = None \<and> paymentScreenshotCloudinaryId t = None) \<and>
   (uploadPayment store uploader teamId sent env = (resp, store', calls) \<and>
    status_code resp = 200 \<longrightarrow>
      (\<exists>u c. paymentScreenshot (store' ! teamId) = Some u \<and>
             paymentScreenshotCloudinaryId (store' ! teamId) = Some c))"
proof -
  have "paymentScreenshot t = None \<and> paymentScreenshotCloudinaryId t = None"
    if "registerTeam users teams requester body = Inr (teams', t)"
    using registerTeam_Inr [OF that] by simp
  moreover have "\<exists>u c. paymentScreenshot (store' ! teamId) = Some u \<and>
             paymentScreenshotCloudinaryId (store' ! teamId) = Some c"
    if "uploadPayment store uploader teamId sent env = (resp, store', calls)"
      and "status_code resp = 200"
    using uploadPayment_success [OF that] by auto
  ultimately show ?thesis
    using run_proof_fields_paired [of ops] by blast
qed

theorem proof_fields_paired_always_witness:
  "list_all proof_fields_paired
     (run [Register scenario_users 101 falcons_body,
           UploadPayment 101 0 (Some proof_file) storage_ok,
           SetPaymentStatus 0 ''verified'']) \<and>
   registerTeam scenario_users [] 101 falcons_body = Inr ([falcons], falcons) \<and>
   paymentScreenshot falcons = None \<and> paymentScreenshotCloudinaryId falcons = None \<and>
   paymentScreenshot (fst (snd (uploadPayment [falcons] 101 0 (Some proof_file)
       storage_ok)) ! 0) \<noteq> None \<and>
   paymentScreenshotCloudinaryId (fst (snd (uploadPayment [falcons] 101 0 (Some proof_file)
       storage_ok)) ! 0) \<noteq> None"
proof -
  have same: "falcons\<lparr>paymentStatus := ''pending''\<rparr> = falcons"
    by (simp add: falcons_def)
  note up = scenario_upload [of "''pending''", unfolded same]
  from proof_fields_paired_always
    [where ops = "[Register scenario_users 101 falcons_body,
           UploadPayment 101 0 (Some proof_file) storage_ok,
           SetPaymentStatus 0 ''verified'']"
      and users = scenario_users and teams = "[]" and requester = 101
      and body = falcons_body and teams' = "[falcons]" and t = falcons
      and store = "[falcons]" and uploader = 101 and teamId = 0
      and sent = "Some proof_file" and env = storage_ok
      and resp = upload_succeeded
      and store' = "[falcons\<lparr>paymentScreenshot :=
                 Some ''https://res.cloudinary.com/demo/image/upload/proof-2.webp'',
               paymentScreenshotCloudinaryId := Some ''hackathon/payment-proofs/proof-2'',
               paymentStatus := ''pending''\<rparr>]"
      and calls = "[Upload [82, 73, 70, 70]]"]
    scenario_register_falcons up
  show ?thesis by auto
qed

section \<open>Decimal digits\<close>

lemma digit_char_digit:
  assumes "d < 10"
  shows "is_digit (digit_char d) \<and> digit_val (digit_char d) = d"
proof -
  from assms have "d \<in> {0, 1, 2, 3, 4, 5, 6, 7, 8, 9}" by auto
  then show ?thesis
    by (auto simp: digit_char_def is_digit_def digit_val_def)
qed

lemma String_of_number_digits: "list_all is_digit (String_of_number n)"
proof (induction n rule: String_of_number.induct)
  case (1 n)
  show ?case
  proof (cases "n < 10")
    case True
    then show ?thesis
      by (simp add: String_of_number.simps [of n] digit_char_digit)
  next
    case False
    with 1 show ?thesis
      by (simp add: String_of_number.simps [of n] digit_char_digit)
  qed
qed

lemma String_of_number_nonempty: "String_of_number n \<noteq> []"
  by (simp add: String_of_number.simps [of n])

lemma decimal_value_snoc:
  "decimal_value (s @ [c]) = 10 * decimal_value s + digit_val c"
  by (simp add: decimal_value_def)

lemma decimal_value_String: "decimal_value (String_of_number n) = n"
proof (induction n rule: String_of_number.induct)
  case (1 n)
  show ?case
  proof (cases "n < 10")
    case True
    then show ?thesis
      by (simp add: String_of_number.simps [of n] decimal_value_def digit_char_digit)
  next
    case False
    then have "decimal_value (String_of_number n) =
        10 * decimal_value (String_of_number (n div 10)) + digit_val (digit_char (n mod 10))"
      by (simp add: String_of_number.simps [of n] decimal_value_snoc)
    with 1 False show ?thesis
      by (simp add: digit_char_digit)
  qed
qed

lemma decimal_value_zeros:
  "decimal_value (replicate k CHR ''0'' @ s) = decimal_value s"
  by (induction k) (simp_all add: decimal_value_def digit_val_def)

lemma padStart_zeros:
  "padStart n ''0'' s = replicate (n - length s) CHR ''0'' @ s"
proof -
  have "concat (replicate k ''0'') = replicate k CHR ''0''" for k
    by (induction k) simp_all
  then show ?thesis by (simp add: padStart_def)
qed

lemma length_String_of_number:
  "0 < k \<Longrightarrow> (length (String_of_number n) \<le> k) = (n < 10 ^ k)"
proof (induction n arbitrary: k rule: String_of_number.induct)
  case (1 n)
  show ?case
  proof (cases "n < 10")
    case True
    have "(10::nat) ^ 1 \<le> 10 ^ k"
      using 1(2) by (intro power_increasing) simp_all
    with True have "n < 10 ^ k" by simp
    with True 1(2) show ?thesis
      by (simp add: String_of_number.simps [of n])
  next
    case False
    show ?thesis
    proof (cases "k = 1")
      case True
      with False show ?thesis
        using String_of_number_nonempty [of "n div 10"]
        by (simp add: String_of_number.simps [of n] Suc_le_eq)
    next
      case k: False
      with 1(2) obtain j where j: "k = Suc j" "0 < j" by (cases k) auto
      from 1(1) [OF False j(2)]
      have "(length (String_of_number (n div 10)) \<le> j) = (n div 10 < 10 ^ j)" .
      moreover have "(n div 10 < 10 ^ j) = (n < 10 ^ Suc j)"
        by (simp add: div_less_iff_less_mult mult.commute)
      ultimately show ?thesis using False j
        by (simp add: String_of_number.simps [of n])
    qed
  qed
qed

lemma registration_digits:
  "list_all is_digit (padStart 4 ''0'' (String_of_number n)) \<and>
   decimal_value (padStart 4 ''0'' (String_of_number n)) = n \<and>
   4 \<le> length (padStart 4 ''0'' (String_of_number n)) \<and>
   (length (padStart 4 ''0'' (String_of_number n)) = 4) = (n < 10000)"
proof -
  have "is_digit CHR ''0''" by (simp add: is_digit_def)
  then have "list_all is_digit (padStart 4 ''0'' (String_of_number n))"
    using String_of_number_digits [of n]
    by (auto simp: padStart_zeros list_all_iff)
  moreover have "decimal_value (padStart 4 ''0'' (String_of_number n)) = n"
    by (simp add: padStart_zeros decimal_value_zeros decimal_value_String)
  moreover have "(length (String_of_number n) \<le> 4) = (n < 10000)"
    using length_String_of_number [of 4 n] by simp
  then have "4 \<le> length (padStart 4 ''0'' (String_of_number n)) \<and>
      (length (padStart 4 ''0'' (String_of_number n)) = 4) = (n < 10000)"
    by (auto simp: padStart_zeros)
  ultimately show ?thesis by simp
qed

lemma registration_number_inj:
  assumes "''TEAM'' @ padStart 4 ''0'' (String_of_number i) =
           ''TEAM'' @ padStart 4 ''0'' (String_of_number j)"
  shows "i = j"
proof -
  from assms have "decimal_value (padStart 4 ''0'' (String_of_number i)) =
      decimal_value (padStart 4 ''0'' (String_of_number j))"
    by simp
  then show ?thesis by (simp add: registration_digits)
qed

section \<open>The registration numbers of a history\<close>

lemma map_update_same:
  "i < length xs \<Longrightarrow> f y = f (xs ! i) \<Longrightarrow> map f (xs[i := y]) = map f xs"
  by (simp add: map_update list_update_same_conv)

lemma apply_operation_registration_numbers:
  assumes inv: "map registrationNumber teams =
      map (\<lambda>i. ''TEAM'' @ padStart 4 ''0'' (String_of_number (i + 1))) [0..<length teams]"
  shows "map registrationNumber (apply_operation teams x) =
      map (\<lambda>i. ''TEAM'' @ padStart 4 ''0'' (String_of_number (i + 1)))
        [0..<length (apply_operation teams x)]"
proof (cases x)
  case (Register users requester body)
  show ?thesis
  proof (cases "registerTeam users teams requester body")
    case (Inl e)
    with Register inv show ?thesis by simp
  next
    case (Inr r)
    obtain teams' t where r: "r = (teams', t)" by (cases r)
    from Inr r have ok: "registerTeam users teams requester body = Inr (teams', t)" by simp
    from registerTeam_Inr [OF ok]
    have "registrationNumber t =
        ''TEAM'' @ padStart 4 ''0'' (String_of_number (length teams + 1))"
      by (elim conjE)
    with inv show ?thesis
      unfolding Register apply_Register_Inr [OF ok] by simp
  qed
next
  case (UploadPayment requester teamId f env)
  from uploadPayment_cases [of teams requester teamId f env] show ?thesis
  proof (elim disjE conjE exE)
    assume same: "fst (snd (uploadPayment teams requester teamId f env)) = teams"
    show ?thesis unfolding UploadPayment apply_operation.simps same by (rule inv)
  next
    fix u c
    assume i: "teamId < length teams"
      and eq: "fst (snd (uploadPayment teams requester teamId f env)) =
           teams[teamId := (teams ! teamId)\<lparr>paymentScreenshot := Some u,
              paymentScreenshotCloudinaryId := Some c, paymentStatus := ''pending''\<rparr>]"
    show ?thesis
      unfolding UploadPayment apply_operation.simps eq
      using inv i by (simp add: map_update_same)
  qed
next
  case (SetPaymentStatus teamId s)
  from setPaymentStatus_cases [of teams teamId s] show ?thesis
  proof (elim disjE conjE)
    assume same: "snd (setPaymentStatus teams teamId s) = teams"
    show ?thesis unfolding SetPaymentStatus apply_operation.simps same by (rule inv)
  next
    assume i: "teamId < length teams"
      and eq: "snd (setPaymentStatus teams teamId s) =
           teams[teamId := (teams ! teamId)\<lparr>paymentStatus := s\<rparr>]"
    show ?thesis
      unfolding SetPaymentStatus apply_operation.simps eq
      using inv i by (simp add: map_update_same)
  qed
qed

lemma run_registration_numbers:
  "map registrationNumber (run ops) =
     map (\<lambda>i. ''TEAM'' @ padStart 4 ''0'' (String_of_number (i + 1))) [0..<length (run ops)]"
proof (induction ops rule: rev_induct)
  case Nil
  show ?case by (simp add: run_Nil)
next
  case (snoc x ops)
  then show ?case unfolding run_snoc by (rule apply_operation_registration_numbers)
qed

lemma run_registration_number_nth:
  assumes "i < length (run ops)"
  shows "registrationNumber (run ops ! i) =
     ''TEAM'' @ padStart 4 ''0'' (String_of_number (i + 1))"
proof -
  from assms have "registrationNumber (run ops ! i) = map registrationNumber (run ops) ! i"
    by simp
  also have "\<dots> = map (\<lambda>i. ''TEAM'' @ padStart 4 ''0'' (String_of_number (i + 1)))
      [0..<length (run ops)] ! i"
    by (simp only: run_registration_numbers [of ops])
  also from assms have "\<dots> = ''TEAM'' @ padStart 4 ''0'' (String_of_number (i + 1))"
    by simp
  finally show ?thesis .
qed

lemma run_registration_numbers_distinct: "distinct (map registrationNumber (run ops))"
proof -
  have "inj_on (\<lambda>i. ''TEAM'' @ padStart 4 ''0'' (String_of_number (i + 1))) A" for A
    by (rule inj_onI) (drule registration_number_inj, simp)
  then have "distinct (map (\<lambda>i. ''TEAM'' @ padStart 4 ''0'' (String_of_number (i + 1)))
      [0..<length (run ops)])"
    by (simp add: distinct_map)
  then show ?thesis by (simp only: run_registration_numbers [of ops])
qed

section \<open>A history of Solo registrations\<close>

lemma trim_no_space:
  assumes "s \<noteq> []" and "\<not> is_space (hd s)" and "\<not> is_space (last s)"
  shows "trim s = s"
proof -
  from assms(1,2) have "dropWhile is_space s = s"
    by (simp add: dropWhile_eq_self_iff)
  moreover from assms(1,3) have "dropWhile is_space (rev s) = rev s"
    by (simp add: dropWhile_eq_self_iff hd_rev)
  ultimately show ?thesis by (simp add: trim_def)
qed

lemma digit_not_space: "is_digit c \<Longrightarrow> \<not> is_space c"
  by (auto simp: is_digit_def is_space_def)

lemma trim_solo_name:
  "trim (CHR ''T'' # String_of_number i) = CHR ''T'' # String_of_number i"
proof (rule trim_no_space)
  show "CHR ''T'' # String_of_number i \<noteq> []" by simp
  show "\<not> is_space (hd (CHR ''T'' # String_of_number i))"
    by (simp add: is_space_def)
  have "last (String_of_number i) \<in> set (String_of_number i)"
    by (simp add: String_of_number_nonempty)
  with String_of_number_digits [of i] have "is_digit (last (String_of_number i))"
    by (simp add: list_all_iff)
  then show "\<not> is_space (last (CHR ''T'' # String_of_number i))"
    by (simp add: String_of_number_nonempty digit_not_space)
qed

lemma String_of_number_inj:
  assumes "String_of_number i = String_of_number j"
  shows "i = j"
proof -
  from assms have "decimal_value (String_of_number i) = decimal_value (String_of_number j)"
    by simp
  then show ?thesis by (simp add: decimal_value_String)
qed

lemma padded_number_inj:
  assumes "padStart 4 ''0'' (String_of_number i) = padStart 4 ''0'' (String_of_number j)"
  shows "i = j"
  using assms registration_number_inj [of i j] by simp

lemma register_solo:
  "registerTeam [] (map solo_team [0..<n]) n (solo_body n) =
     Inr (map solo_team [0..<n] @ [solo_team n], solo_team n)"
proof -
  have name: "find (\<lambda>t. teamName t = ''T'' @ String_of_number n) (map solo_team [0..<n]) = None"
    by (auto simp: find_None_filter filter_empty_conv solo_team_def
        dest: String_of_number_inj)
  have free: "find (leader_or_member n) (map solo_team [0..<n]) = None"
    by (auto simp: find_None_filter filter_empty_conv solo_team_def leader_or_member_def)
  have no_name: "\<not> list_ex (\<lambda>x. teamName x = ''T'' @ String_of_number n) (map solo_team [0..<n])"
    by (auto simp: list_ex_iff solo_team_def dest: String_of_number_inj)
  have no_number: "\<not> list_ex (\<lambda>x. registrationNumber x =
      ''TEAM'' @ padStart 4 ''0'' (String_of_number (Suc n))) (map solo_team [0..<n])"
    by (auto simp: list_ex_iff solo_team_def dest: padded_number_inj)
  show ?thesis
    using name free no_name no_number
    by (simp add: registerTeam_def Let_def solo_body_def trim_solo_name memberCount_def
        memberUserIds_def greater_than_def ToNumber_def
        save_new_def schema_valid_def solo_team_def)
qed

lemma run_solo_registrations: "run (map solo_registration [0..<n]) = map solo_team [0..<n]"
proof (induction n)
  case 0
  show ?case by (simp add: run_Nil)
next
  case (Suc n)
  have "run (map solo_registration [0..<Suc n]) =
      apply_operation (run (map solo_registration [0..<n])) (solo_registration n)"
    by (simp add: run_snoc)
  also have "\<dots> = map solo_team [0..<n] @ [solo_team n]"
    by (simp add: Suc solo_registration_def register_solo)
  finally show ?case by simp
qed

section \<open>The registration number\<close>

text \<open>
  C5. A registration that succeeds gives the new team the number built from the team
  count before it: \<open>TEAM\<close> followed by the decimal digits of count + 1, filled with zeros
  at the left to four digits. The digits read back as count + 1; they are exactly four
  when count + 1 is below 10000 and more than four from there on. The first team of an
  empty collection gets \<open>TEAM0001\<close>, the team at position \<open>i\<close> of any collection reached
  from the empty one has the number of \<open>i + 1\<close>, and the numbers of such a collection
  are pairwise distinct.
\<close>

theorem registration_number_format:
  "(registerTeam users teams requester body = Inr (teams', t) \<longrightarrow>
      registrationNumber t =
        ''TEAM'' @ padStart 4 ''0'' (String_of_number (length teams + 1)) \<and>
      take 4 (registrationNumber t) = ''TEAM'' \<and>
      list_all is_digit (drop 4 (registrationNumber t)) \<and>
      decimal_value (drop 4 (registrationNumber t)) = length teams + 1 \<and>
      4 \<le> length (drop 4 (registrationNumber t)) \<and>
      (length (drop 4 (registrationNumber t)) = 4) = (length teams + 1 < 10000) \<and>
      (teams = [] \<longrightarrow> registrationNumber t = ''TEAM0001'')) \<and>
   (\<forall>i<length (run ops). registrationNumber (run ops ! i) =
      ''TEAM'' @ padStart 4 ''0'' (String_of_number (i + 1))) \<and>
   distinct (map registrationNumber (run ops))"
proof -
  have first: "''TEAM'' @ padStart 4 ''0'' (String_of_number (length ([]::team list) + 1)) =
      ''TEAM0001''"
    by code_simp
  have "registrationNumber t =
        ''TEAM'' @ padStart 4 ''0'' (String_of_number (length teams + 1)) \<and>
      take 4 (registrationNumber t) = ''TEAM'' \<and>
      list_all is_digit (drop 4 (registrationNumber t)) \<and>
      decimal_value (drop 4 (registrationNumber t)) = length teams + 1 \<and>
      4 \<le> length (drop 4 (registrationNumber t)) \<and>
      (length (drop 4 (registrationNumber t)) = 4) = (length teams + 1 < 10000) \<and>
      (teams = [] \<longrightarrow> registrationNumber t = ''TEAM0001'')"
    if ok: "registerTeam users teams requester body = Inr (teams', t)"
  proof -
    from registerTeam_Inr [OF ok]
    have number: "registrationNumber t =
        ''TEAM'' @ padStart 4 ''0'' (String_of_number (length teams + 1))"
      by (elim conjE)
    from number first have "teams = [] \<longrightarrow> registrationNumber t = ''TEAM0001''"
      by auto
    with number registration_digits [of "length teams + 1"] show ?thesis
      by simp
  qed
  then show ?thesis
    using run_registration_number_nth [of _ ops] run_registration_numbers_distinct [of ops]
    by blast
qed

theorem registration_number_format_witness:
  "registerTeam scenario_users [] 101 falcons_body = Inr ([falcons], falcons) \<and>
   registrationNumber falcons = ''TEAM0001'' \<and>
   decimal_value (drop 4 (registrationNumber falcons)) = length ([]::team list) + 1 \<and>
   length (drop 4 (registrationNumber falcons)) = 4 \<and>
   (0::nat) < length (run [Register scenario_users 101 falcons_body]) \<and>
   registrationNumber (run [Register scenario_users 101 falcons_body] ! 0) =
     ''TEAM'' @ padStart 4 ''0'' (String_of_number (0 + 1)) \<and>
   distinct (map registrationNumber (run [Register scenario_users 101 falcons_body]))"
proof -
  note fmt = registration_number_format [where users = scenario_users and teams = "[]"
      and requester = 101 and body = falcons_body and teams' = "[falcons]" and t = falcons
      and ops = "[Register scenario_users 101 falcons_body]"]
  from fmt scenario_register_falcons
  have "registrationNumber falcons = ''TEAM0001'' \<and>
      decimal_value (drop 4 (registrationNumber falcons)) = length ([]::team list) + 1"
    by blast
  moreover have "length (drop 4 (registrationNumber falcons)) = 4"
    by (simp add: falcons_def)
  moreover have len: "(0::nat) < length (run [Register scenario_users 101 falcons_body])"
    by (simp add: run_falcons)
  moreover from fmt len
  have "registrationNumber (run [Register scenario_users 101 falcons_body] ! 0) =
     ''TEAM'' @ padStart 4 ''0'' (String_of_number (0 + 1))"
    by blast
  moreover from fmt
  have "distinct (map registrationNumber (run [Register scenario_users 101 falcons_body]))"
    by blast
  ultimately show ?thesis
    using scenario_register_falcons by blast
qed

text \<open>Against C5 as it is worded: after 9999 Solo registrations the next one succeeds
  and stores a number with five digits behind \<open>TEAM\<close>, not four.\<close>

theorem registration_number_five_digits:
  "length (run (map solo_registration [0..<9999])) = 9999 \<and>
   registerTeam [] (run (map solo_registration [0..<9999])) 9999 (solo_body 9999) =
     Inr (run (map solo_registration [0..<9999]) @ [solo_team 9999], solo_team 9999) \<and>
   registrationNumber (solo_team 9999) = ''TEAM10000'' \<and>
   length (drop 4 (registrationNumber (solo_team 9999))) = 5"
proof (intro conjI)
  show "length (run (map solo_registration [0..<9999])) = 9999"
    unfolding run_solo_registrations by (simp only: length_map length_upt diff_zero)
  show "registerTeam [] (run (map solo_registration [0..<9999])) 9999 (solo_body 9999) =
     Inr (run (map solo_registration [0..<9999]) @ [solo_team 9999], solo_team 9999)"
    unfolding run_solo_registrations by (rule register_solo)
  show "registrationNumber (solo_team 9999) = ''TEAM10000''"
    by (simp add: solo_team_def String_of_number.simps digit_char_def padStart_def)
  show "length (drop 4 (registrationNumber (solo_team 9999))) = 5"
    by (simp add: solo_team_def String_of_number.simps digit_char_def padStart_def)
qed

section \<open>Rounding to a double\<close>

lemma pow2_powi: "pow2 k = 2 powi k"
  by (simp add: pow2_def power_int_def inverse_eq_divide power_one_over)

lemma pow2_pos: "0 < pow2 k"
  by (simp add: pow2_def)

lemma pow2_add: "pow2 (a + b) = pow2 a * pow2 b"
  by (simp add: pow2_powi power_int_add)

lemma pow2_nat: "pow2 (int n) = 2 ^ n"
  by (simp add: pow2_def)

lemma pow2_minus: "pow2 (- k) = 1 / pow2 k"
  by (simp add: pow2_powi power_int_minus inverse_eq_divide)

lemma bit_length_1: "bit_length (Suc 0) = Suc 0"
  by (simp add: bit_length.simps [of "Suc 0"] bit_length.simps [of 0])

lemma bit_length_bounds:
  "0 < n \<Longrightarrow> 2 ^ (bit_length n - 1) \<le> n \<and> n < 2 ^ bit_length n"
proof (induction n rule: bit_length.induct)
  case (1 n)
  show ?case
  proof (cases "n div 2 = 0")
    case True
    with 1(2) have "n = 1" by (simp add: div_eq_0_iff)
    then show ?thesis
      by (simp add: bit_length_1)
  next
    case False
    with 1 have ih: "2 ^ (bit_length (n div 2) - 1) \<le> n div 2"
      "n div 2 < 2 ^ bit_length (n div 2)"
      by simp_all
    from False have pos: "0 < bit_length (n div 2)"
      by (simp add: bit_length.simps [of "n div 2"])
    have len: "bit_length n = Suc (bit_length (n div 2))"
      using 1(2) by (simp add: bit_length.simps [of n])
    from pos have "(2::nat) ^ bit_length (n div 2) = 2 * 2 ^ (bit_length (n div 2) - 1)"
      by (cases "bit_length (n div 2)") simp_all
    with ih show ?thesis
      unfolding len by simp arith
  qed
qed

lemma floor_log2_bounds:
  assumes "0 < q"
  shows "pow2 (floor_log2 q) \<le> q \<and> q < pow2 (floor_log2 q + 1)"
proof (cases "1 \<le> q")
  case True
  define m where "m = nat \<lfloor>q\<rfloor>"
  from True have m: "0 < m" "real m \<le> q" "q < real m + 1"
    unfolding m_def by (simp_all add: le_floor_iff)
  from bit_length_bounds [OF m(1)]
  have b: "2 ^ (bit_length m - 1) \<le> m" "m < 2 ^ bit_length m" by simp_all
  from m(1) have pos: "0 < bit_length m"
    by (simp add: bit_length.simps [of m])
  have e: "floor_log2 q = int (bit_length m - 1)"
    using True pos by (simp add: floor_log2_def m_def)
  have e1: "floor_log2 q + 1 = int (bit_length m)"
    using e pos by simp
  from b(1) have "(2::real) ^ (bit_length m - 1) \<le> real m"
    by (metis of_nat_le_iff of_nat_numeral of_nat_power)
  with m(2) have low: "pow2 (floor_log2 q) \<le> q"
    unfolding e pow2_nat by linarith
  from b(2) have "m + 1 \<le> 2 ^ bit_length m" by simp
  then have "real (m + 1) \<le> (2::real) ^ bit_length m"
    by (metis of_nat_le_iff of_nat_numeral of_nat_power)
  with m(3) have "q < pow2 (floor_log2 q + 1)"
    unfolding e1 pow2_nat by simp
  with low show ?thesis by simp
next
  case False
  with assms have q: "0 < q" "q < 1" by simp_all
  define r where "r = 1 / q"
  from q have r: "1 < r" unfolding r_def by simp
  define m where "m = nat (\<lceil>r\<rceil> - 1)"
  from r have c: "2 \<le> \<lceil>r\<rceil>" by (simp add: le_ceiling_iff)
  then have m: "0 < m" "int m = \<lceil>r\<rceil> - 1" unfolding m_def by simp_all
  have lo: "real m < r"
    using m(2) ceiling_correct [of r] by (metis of_int_of_nat_eq of_int_diff of_int_1)
  have hi: "r \<le> real m + 1"
    using m(2) ceiling_correct [of r]
    by (metis diff_add_cancel of_int_1 of_int_add of_int_of_nat_eq)
  from bit_length_bounds [OF m(1)]
  have b: "2 ^ (bit_length m - 1) \<le> m" "m < 2 ^ bit_length m" by simp_all
  from m(1) have pos: "0 < bit_length m"
    by (simp add: bit_length.simps [of m])
  have e: "floor_log2 q = - int (bit_length m)"
    using False by (simp add: floor_log2_def m_def r_def)
  from b(2) have "m + 1 \<le> 2 ^ bit_length m" by simp
  then have "real (m + 1) \<le> (2::real) ^ bit_length m"
    by (metis of_nat_le_iff of_nat_numeral of_nat_power)
  with hi have "r \<le> 2 ^ bit_length m" by simp
  then have "1 / 2 ^ bit_length m \<le> q"
    using q(1) unfolding r_def by (simp add: field_simps)
  then have low: "pow2 (floor_log2 q) \<le> q"
    unfolding e pow2_minus pow2_nat .
  from b(1) have "(2::real) ^ (bit_length m - 1) \<le> real m"
    by (metis of_nat_le_iff of_nat_numeral of_nat_power)
  with lo have "2 ^ (bit_length m - 1) < r" by linarith
  then have "q < 1 / 2 ^ (bit_length m - 1)"
    using q(1) unfolding r_def by (simp add: field_simps)
  moreover have "floor_log2 q + 1 = - int (bit_length m - 1)"
    using e pos by simp
  ultimately have "q < pow2 (floor_log2 q + 1)"
    by (simp only: pow2_minus pow2_nat)
  with low show ?thesis by simp
qed

lemma round_half_even_error: "\<bar>of_int (round_half_even y) - y\<bar> \<le> 1 / 2"
proof -
  have "of_int \<lfloor>y\<rfloor> \<le> y" "y < of_int \<lfloor>y\<rfloor> + 1"
    by linarith+
  then show ?thesis
    by (auto simp: round_half_even_def Let_def)
qed

lemma round_double_error:
  assumes "0 < q"
  shows "\<bar>round_double q - q\<bar> \<le> q / 2 ^ 53"
proof -
  define e where "e = floor_log2 q"
  define ulp where "ulp = pow2 (e - 52)"
  have ulp: "0 < ulp" unfolding ulp_def by (rule pow2_pos)
  from assms have rd: "round_double q = of_int (round_half_even (q / ulp)) * ulp"
    by (simp add: round_double_def Let_def ulp_def e_def)
  have "of_int (round_half_even (q / ulp)) * ulp - q =
      (of_int (round_half_even (q / ulp)) - q / ulp) * ulp"
    using ulp by (simp add: field_simps)
  then have "\<bar>of_int (round_half_even (q / ulp)) * ulp - q\<bar> =
      \<bar>of_int (round_half_even (q / ulp)) - q / ulp\<bar> * ulp"
    using ulp by (simp add: abs_mult)
  also have "\<dots> \<le> 1 / 2 * ulp"
    using round_half_even_error [of "q / ulp"] ulp
    by (intro mult_right_mono) simp_all
  also have "1 / 2 * ulp = pow2 e / 2 ^ 53"
  proof -
    have "pow2 e = pow2 ((e - 52) + 52)" by simp
    also have "\<dots> = ulp * 2 ^ 52"
      unfolding pow2_add ulp_def using pow2_nat [of 52] by simp
    finally show ?thesis by simp
  qed
  also have "\<dots> \<le> q / 2 ^ 53"
    using floor_log2_bounds [OF assms] unfolding e_def
    by (simp add: divide_right_mono)
  finally show ?thesis unfolding rd .
qed

lemma round_double_0: "round_double 0 = 0"
  by (simp add: round_double_def)

lemma round_double_range:
  assumes "0 < q"
  shows "0 < round_double q \<and> round_double q \<le> 2 * q"
proof -
  have small: "q / 2 ^ 53 < q" using assms by (simp add: field_simps)
  from round_double_error [OF assms]
  have "round_double q - q \<le> q / 2 ^ 53" "- (round_double q - q) \<le> q / 2 ^ 53"
    by (simp_all only: abs_le_iff)
  with small show ?thesis by linarith
qed

lemma percentage_error:
  assumes "0 < v" and "v \<le> t"
  shows "\<bar>verification_percentage v t - real v / real t * 100\<bar> \<le> 300 / 2 ^ 53"
proof -
  define u :: real where "u = 1 / 2 ^ 53"
  define q where "q = real v / real t"
  define d where "d = round_double q"
  define x where "x = round_double (d * 100)"
  have u: "0 \<le> u" unfolding u_def by simp
  from assms have q: "0 < q" "q \<le> 1" unfolding q_def by simp_all
  from round_double_range [OF q(1)] have d: "0 < d" "d \<le> 2 * q" unfolding d_def by simp_all
  from round_double_error [OF q(1)]
  have e1: "d - q \<le> q * u" "- (d - q) \<le> q * u"
    unfolding d_def u_def by (simp_all only: abs_le_iff times_divide_eq_right mult_1_right)
  from d have "0 < d * 100" by simp
  have c: "d * 100 / 2 ^ 53 = 100 * (d * u)" by (simp add: u_def)
  from round_double_error [OF \<open>0 < d * 100\<close>]
  have e2: "x - d * 100 \<le> 100 * (d * u)" "- (x - d * 100) \<le> 100 * (d * u)"
    unfolding x_def c [symmetric] by (simp_all only: abs_le_iff)
  from d(2) q(2) have "d \<le> 2" by simp
  then have du: "d * u \<le> 2 * u" using u by (rule mult_right_mono)
  from q(2) have qu: "q * u \<le> 1 * u" using u by (rule mult_right_mono)
  from e1 e2 du qu have "x - q * 100 \<le> 300 * u" "- (x - q * 100) \<le> 300 * u"
    by linarith+
  then have "\<bar>x - q * 100\<bar> \<le> 300 * u" by (simp only: abs_le_iff)
  moreover have "verification_percentage v t = x"
    by (simp add: verification_percentage_def double_times_def double_divide_def
        x_def d_def q_def)
  ultimately show ?thesis by (simp add: u_def q_def)
qed

lemma toFixed_integer_error: "\<bar>real_of_int (toFixed_integer 1 x) - x * 10\<bar> \<le> 1 / 2"
proof -
  have "of_int \<lfloor>x * 10 + 1 / 2\<rfloor> \<le> x * 10 + 1 / 2"
    "x * 10 + 1 / 2 < of_int \<lfloor>x * 10 + 1 / 2\<rfloor> + 1"
    by linarith+
  then have "real_of_int \<lfloor>x * 10 + 1 / 2\<rfloor> - x * 10 \<le> 1 / 2"
    "- (real_of_int \<lfloor>x * 10 + 1 / 2\<rfloor> - x * 10) \<le> 1 / 2"
    by linarith+
  then have "\<bar>real_of_int \<lfloor>x * 10 + 1 / 2\<rfloor> - x * 10\<bar> \<le> 1 / 2"
    by (simp only: abs_le_iff)
  then show ?thesis by (simp only: toFixed_integer_def power_one_right)
qed

lemma verification_percentage_0: "verification_percentage 0 t = 0"
  by (simp add: verification_percentage_def double_times_def double_divide_def round_double_0)

lemma rate_tenths_nearest:
  assumes t: "0 < t" "t < 2 ^ 40" and v: "v \<le> t"
  shows "\<bar>real_of_int (rate_tenths v t) / 10 - real v / real t * 100\<bar> \<le> 1 / 20"
proof (cases "v = 0")
  case True
  then show ?thesis
    by (simp add: rate_tenths_def verification_percentage_0 toFixed_integer_def)
next
  case False
  then have vpos: "0 < v" by simp
  define u :: real where "u = 1 / 2 ^ 53"
  define p where "p = real v / real t"
  define x where "x = verification_percentage v t"
  define n where "n = rate_tenths v t"
  define N where "N = n * int t - 1000 * int v"
  have tpos: "0 < real t" using t(1) by simp
  from toFixed_integer_error [of x]
  have n: "real_of_int n - x * 10 \<le> 1 / 2" "- (real_of_int n - x * 10) \<le> 1 / 2"
    unfolding n_def x_def rate_tenths_def by (simp_all only: abs_le_iff)
  have c: "300 / 2 ^ 53 = 300 * u" by (simp add: u_def)
  from percentage_error [OF vpos v]
  have x: "x - p * 100 \<le> 300 * u" "- (x - p * 100) \<le> 300 * u"
    unfolding x_def p_def c [symmetric] by (simp_all only: abs_le_iff)
  from n x have np: "real_of_int n - p * 1000 \<le> 1 / 2 + 3000 * u"
    "- (real_of_int n - p * 1000) \<le> 1 / 2 + 3000 * u"
    by linarith+
  have N: "real_of_int N = (real_of_int n - p * 1000) * real t"
    using tpos by (simp add: N_def p_def field_simps)
  define B where "B = u * real t"
  from t(2) have "real t < 2 ^ 40"
    by (metis of_nat_less_iff of_nat_numeral of_nat_power)
  then have tu: "6000 * B < 1" unfolding B_def u_def by simp
  have bound: "(1 / 2 + 3000 * u) * real t = real t / 2 + 3000 * B"
    by (simp add: B_def algebra_simps)
  from np(1) tpos have "(real_of_int n - p * 1000) * real t \<le> (1 / 2 + 3000 * u) * real t"
    by (intro mult_right_mono) simp_all
  then have "real_of_int N \<le> real t / 2 + 3000 * B"
    unfolding N bound .
  with tu have up: "2 * real_of_int N < real t + 1" by linarith
  from np(2) tpos
  have "(- (real_of_int n - p * 1000)) * real t \<le> (1 / 2 + 3000 * u) * real t"
    by (intro mult_right_mono) simp_all
  then have "- real_of_int N \<le> real t / 2 + 3000 * B"
    unfolding N bound by (simp only: mult_minus_left)
  with tu have down: "- (2 * real_of_int N) < real t + 1" by linarith
  from up have "real_of_int (2 * N) < real_of_int (int t + 1)" by simp
  then have "2 * N < int t + 1" by (simp only: of_int_less_iff)
  then have "2 * N \<le> int t" by simp
  then have "real_of_int (2 * N) \<le> real_of_int (int t)" by (simp only: of_int_le_iff)
  then have up': "real_of_int N \<le> real t / 2" by simp
  from down have "real_of_int (- (2 * N)) < real_of_int (int t + 1)" by simp
  then have "- (2 * N) < int t + 1" by (simp only: of_int_less_iff)
  then have "- (2 * N) \<le> int t" by simp
  then have "real_of_int (- (2 * N)) \<le> real_of_int (int t)" by (simp only: of_int_le_iff)
  then have down': "- real_of_int N \<le> real t / 2" by simp
  have eq: "real_of_int n / 10 - p * 100 = real_of_int N / (10 * real t)"
    using tpos by (simp add: N p_def field_simps)
  from up' tpos have "real_of_int N / (10 * real t) \<le> (real t / 2) / (10 * real t)"
    by (intro divide_right_mono) simp_all
  moreover from down' tpos
  have "(- real_of_int N) / (10 * real t) \<le> (real t / 2) / (10 * real t)"
    by (intro divide_right_mono) simp_all
  moreover have "(real t / 2) / (10 * real t) = 1 / 20" using tpos by simp
  ultimately have "real_of_int n / 10 - p * 100 \<le> 1 / 20"
    "- (real_of_int n / 10 - p * 100) \<le> 1 / 20"
    unfolding eq by simp_all
  then have "\<bar>real_of_int n / 10 - p * 100\<bar> \<le> 1 / 20" by (simp only: abs_le_iff)
  then show ?thesis unfolding n_def p_def .
qed

section \<open>The string written by toFixed\<close>

lemma digit_char_0: "digit_char 0 = CHR ''0''"
  by (simp add: digit_char_def)

lemma toFixed_1_digits:
  assumes "0 \<le> x"
  shows "toFixed 1 x =
     String_of_number (nat (toFixed_integer 1 x div 10)) @ ''.'' @
       [digit_char (nat (toFixed_integer 1 x mod 10))]"
proof -
  define k where "k = nat (toFixed_integer 1 x)"
  from assms have "0 \<le> toFixed_integer 1 x"
    by (simp add: toFixed_integer_def)
  then have split: "nat (toFixed_integer 1 x div 10) = k div 10"
    "nat (toFixed_integer 1 x mod 10) = k mod 10"
    unfolding k_def by (simp_all add: nat_div_distrib nat_mod_distrib)
  from assms have abs: "\<bar>x\<bar> = x" by simp
  have unfolded: "toFixed 1 x =
      (let padded = (if length (String_of_number k) \<le> 1
                     then replicate (1 + 1 - length (String_of_number k)) CHR ''0'' @
                          String_of_number k
                     else String_of_number k)
       in take (length padded - 1) padded @ ''.'' @ drop (length padded - 1) padded)"
    using assms unfolding toFixed_def abs k_def [symmetric] Let_def by simp
  show ?thesis
  proof (cases "k < 10")
    case True
    then have "String_of_number k = [digit_char k]"
      by (simp add: String_of_number.simps [of k])
    moreover from True have "String_of_number (k div 10) = ''0''"
      by (simp add: String_of_number.simps [of 0] digit_char_0)
    ultimately show ?thesis
      using True unfolding split unfolded by (simp add: Let_def)
  next
    case False
    then have m: "String_of_number k = String_of_number (k div 10) @ [digit_char (k mod 10)]"
      by (simp add: String_of_number.simps [of k])
    have "String_of_number (k div 10) \<noteq> []"
      by (rule String_of_number_nonempty)
    then have "0 < length (String_of_number (k div 10))" by simp
    then show ?thesis
      unfolding split unfolded m by (simp add: Let_def)
  qed
qed

lemma bit_length_numeral:
  "bit_length (numeral k) = Suc (bit_length (numeral k div 2))"
  by (simp add: bit_length.simps [of "numeral k"])

lemma bit_length_0: "bit_length 0 = 0"
  by (simp add: bit_length.simps [of 0])

lemma round_double_1: "round_double 1 = 1"
  by (simp add: round_double_def floor_log2_def bit_length_1 pow2_def round_half_even_def
      Let_def)

lemma round_double_100: "round_double 100 = 100"
  by (simp add: round_double_def floor_log2_def bit_length_numeral bit_length_1 bit_length_0
      pow2_def round_half_even_def Let_def)

lemma all_verified_rate:
  assumes "0 < t"
  shows "toFixed 1 (verification_percentage t t) = ''100.0''"
proof -
  from assms have "verification_percentage t t = 100"
    by (simp add: verification_percentage_def double_times_def double_divide_def
        round_double_1 round_double_100)
  moreover have "toFixed 1 100 = ''100.0''"
    by (simp add: toFixed_def toFixed_integer_def Let_def String_of_number.simps
        digit_char_def)
  ultimately show ?thesis by simp
qed

lemma nearest_tenth_cases:
  assumes "\<bar>real_of_int n / 10 - p\<bar> \<le> 1 / 20"
  shows "real_of_int n / 10 = one_decimal p \<or>
     (real_of_int n / 10 = one_decimal p - 1 / 10 \<and>
      p * 10 + 1 / 2 = real_of_int \<lfloor>p * 10 + 1 / 2\<rfloor>)"
proof -
  define n' where "n' = \<lfloor>p * 10 + 1 / 2\<rfloor>"
  have fl: "real_of_int n' \<le> p * 10 + 1 / 2" "p * 10 + 1 / 2 < real_of_int n' + 1"
    unfolding n'_def by linarith+
  from assms have a: "real_of_int n / 10 - p \<le> 1 / 20" "- (real_of_int n / 10 - p) \<le> 1 / 20"
    by (simp_all only: abs_le_iff)
  from a(1) fl(2) have "real_of_int n < real_of_int (n' + 1)" by simp
  then have "n < n' + 1" by (simp only: of_int_less_iff)
  then have le: "n \<le> n'" by simp
  from a(2) fl(1) have "real_of_int (n' - 1) \<le> real_of_int n" by simp
  then have ge: "n' - 1 \<le> n" by (simp only: of_int_le_iff)
  from le ge consider "n = n'" | "n = n' - 1" by linarith
  then show ?thesis
  proof cases
    case 1
    then show ?thesis by (simp add: one_decimal_def n'_def)
  next
    case 2
    then have n: "real_of_int n = real_of_int n' - 1" by simp
    with a(2) fl(1) have "p * 10 + 1 / 2 = real_of_int n'" by linarith
    with n show ?thesis by (simp add: one_decimal_def n'_def [symmetric] diff_divide_distrib)
  qed
qed

section \<open>The statistics of a collection\<close>

lemma count_by_status:
  "list_all (\<lambda>t. paymentStatus t \<in> set [''pending'', ''verified'', ''rejected'']) teams \<Longrightarrow>
   length (filter (\<lambda>t. paymentStatus t = ''verified'') teams) +
   length (filter (\<lambda>t. paymentStatus t = ''pending'') teams) +
   length (filter (\<lambda>t. paymentStatus t = ''rejected'') teams) = length teams"
  by (induction teams) auto

lemma run_payment_status:
  "list_all (\<lambda>t. paymentStatus t \<in> set [''pending'', ''verified'', ''rejected'']) (run ops)"
proof (rule run_invariant)
  fix users teams requester body teams' t
  assume "registerTeam users teams requester body = Inr (teams', t)"
  from registerTeam_Inr [OF this]
  show "paymentStatus t \<in> set [''pending'', ''verified'', ''rejected'']"
    by simp
qed simp_all

lemma computeStats_fields:
  "totalTeams (computeStats users teams) = length teams \<and>
   verifiedPayments (computeStats users teams) =
     length (filter (\<lambda>t. paymentStatus t = ''verified'') teams) \<and>
   pendingPayments (computeStats users teams) =
     length (filter (\<lambda>t. paymentStatus t = ''pending'') teams) \<and>
   rejectedPayments (computeStats users teams) =
     length (filter (\<lambda>t. paymentStatus t = ''rejected'') teams) \<and>
   totalUsers (computeStats users teams) = length users \<and>
   paymentVerificationRate (computeStats users teams) =
     (if teams = [] then JsonNumber 0
      else JsonString (toFixed 1 (verification_percentage
             (length (filter (\<lambda>t. paymentStatus t = ''verified'') teams)) (length teams))))"
  by (simp add: computeStats_def Let_def)

lemma eighty_teams_counts:
  "length eighty_teams = 80 \<and>
   length (filter (\<lambda>t. paymentStatus t = ''verified'') eighty_teams) = 23"
proof -
  have "[0..<80] = [0..<23] @ [23..<80]"
    using upt_add_eq_append [of 0 23 57] by simp
  then have "filter (\<lambda>i. i < 23) [0..<80] = filter (\<lambda>i. i < 23) [0..<23] @
      filter (\<lambda>i. i < 23) [23..<80]"
    by (simp only: filter_append)
  also have "filter (\<lambda>i. i < 23) [0..<23] = [0..<23]"
    by (rule filter_True) simp
  also have "filter (\<lambda>i. i < 23) [23..<80] = []"
    by (rule filter_False) simp
  finally have "length (filter (\<lambda>i. i < 23) [0..<80]) = 23"
    by (simp only: append_Nil2 length_upt diff_zero)
  moreover have "length (filter (\<lambda>t. paymentStatus t = ''verified'') eighty_teams) =
      length (filter (\<lambda>i. i < 23) [0..<80])"
    unfolding eighty_teams_def filter_map length_map
    by (rule arg_cong [where f = length], rule filter_cong) (simp_all add: comp_def)
  moreover have "length eighty_teams = 80"
    unfolding eighty_teams_def by (simp only: length_map length_upt diff_zero)
  ultimately show ?thesis by simp
qed

lemma rate_23_of_80:
  "verification_percentage 23 80 = 8092405580431359 / 281474976710656 \<and>
   toFixed 1 (verification_percentage 23 80) = ''28.7''"
proof -
  have e1: "floor_log2 (23 / 80) = - 2"
    by (simp add: floor_log2_def bit_length_numeral bit_length_1 bit_length_0)
  have d1: "round_double (23 / 80) = 2589569785738035 / 9007199254740992"
    by (simp add: round_double_def e1 pow2_def round_half_even_def Let_def)
  have e2: "floor_log2 (64739244643450875 / 2251799813685248) = 4"
    by (simp add: floor_log2_def bit_length_numeral bit_length_1 bit_length_0)
  have d2: "round_double (64739244643450875 / 2251799813685248) =
      8092405580431359 / 281474976710656"
    by (simp add: round_double_def e2 pow2_def round_half_even_def Let_def)
  have x: "verification_percentage 23 80 = 8092405580431359 / 281474976710656"
    by (simp add: verification_percentage_def double_times_def double_divide_def d1 d2)
  have tf: "toFixed 1 (8092405580431359 / 281474976710656) = ''28.7''"
    by (simp add: toFixed_def toFixed_integer_def Let_def String_of_number.simps
        digit_char_def)
  show ?thesis unfolding x by (intro conjI refl) (fact tf)
qed

lemma verification_percentage_nonneg:
  assumes "v \<le> t"
  shows "0 \<le> verification_percentage v t"
proof (cases "v = 0")
  case True
  then show ?thesis by (simp add: verification_percentage_0)
next
  case False
  with assms have "0 < real v / real t" by simp
  from round_double_range [OF this] have "0 < round_double (real v / real t) * 100" by simp
  from round_double_range [OF this] show ?thesis
    by (simp add: verification_percentage_def double_times_def double_divide_def)
qed

lemma run_append: "run (ops @ rest) = foldl apply_operation (run ops) rest"
  by (simp add: run_def)

lemma solo_team_pending: "(solo_team i)\<lparr>paymentStatus := ''pending''\<rparr> = solo_team i"
  by (simp add: solo_team_def)

lemma verify_first_teams:
  "k \<le> n \<Longrightarrow>
   foldl apply_operation (map solo_team [0..<n]) (map verify_team [0..<k]) =
     map (\<lambda>i. (solo_team i)\<lparr>paymentStatus := (if i < k then ''verified'' else ''pending'')\<rparr>)
       [0..<n]"
proof (induction k)
  case 0
  show ?case by (simp add: solo_team_pending)
next
  case (Suc k)
  let ?before = "map (\<lambda>i. (solo_team i)\<lparr>paymentStatus :=
      (if i < k then ''verified'' else ''pending'')\<rparr>) [0..<n]"
  let ?after = "map (\<lambda>i. (solo_team i)\<lparr>paymentStatus :=
      (if i < Suc k then ''verified'' else ''pending'')\<rparr>) [0..<n]"
  from Suc have k: "k < n" and ih:
    "foldl apply_operation (map solo_team [0..<n]) (map verify_team [0..<k]) = ?before"
    by simp_all
  have "foldl apply_operation (map solo_team [0..<n]) (map verify_team [0..<Suc k]) =
      apply_operation ?before (verify_team k)"
    by (simp add: ih)
  also have "\<dots> = ?before[k := (?before ! k)\<lparr>paymentStatus := ''verified''\<rparr>]"
    using k by (simp add: verify_team_def setPaymentStatus_def)
  also have "\<dots> = ?after"
    using k by (auto intro!: nth_equalityI simp: nth_list_update)
  finally show ?case .
qed

lemma eighty_teams_reached:
  "run (map solo_registration [0..<80] @ map verify_team [0..<23]) = eighty_teams"
  unfolding run_append run_solo_registrations eighty_teams_def
  by (rule verify_first_teams) simp

lemma run_scenario_verified:
  "run [Register scenario_users 101 falcons_body, SetPaymentStatus 0 ''verified''] =
     [falcons\<lparr>paymentStatus := ''verified''\<rparr>]"
  by (simp add: run_def scenario_register_falcons setPaymentStatus_def)

text \<open>
  C8. The statistics hold the number of teams, the number of teams of each payment
  status and the number of users; in a collection reached from the empty one the three
  status counts add up to the number of teams. The rate is the number 0 when there is
  no team, and otherwise the string that \<open>toFixed(1)\<close> writes for the double
  \<open>(verified / total) * 100\<close>. For fewer than \<open>2 ^ 40\<close> teams that string shows a number of
  tenths that differs from the exact percentage by at most 0.05: it is the exact
  percentage rounded to one decimal place, or, only when the exact percentage lies
  halfway between two tenths, possibly the tenth below. When every team is verified, as
  with one verified team, the string is \<open>100.0\<close>.
\<close>

theorem stats_reported:
  "totalTeams (computeStats users teams) = length teams \<and>
   verifiedPayments (computeStats users teams) =
     length (filter (\<lambda>t. paymentStatus t = ''verified'') teams) \<and>
   pendingPayments (computeStats users teams) =
     length (filter (\<lambda>t. paymentStatus t = ''pending'') teams) \<and>
   rejectedPayments (computeStats users teams) =
     length (filter (\<lambda>t. paymentStatus t = ''rejected'') teams) \<and>
   totalUsers (computeStats users teams) = length users \<and>
   paymentVerificationRate (computeStats users teams) =
     (if totalTeams (computeStats users teams) = 0 then JsonNumber 0
      else JsonString (toFixed 1 (verification_percentage
             (verifiedPayments (computeStats users teams))
             (totalTeams (computeStats users teams))))) \<and>
   verifiedPayments (computeStats users (run ops)) +
   pendingPayments (computeStats users (run ops)) +
   rejectedPayments (computeStats users (run ops)) =
     totalTeams (computeStats users (run ops)) \<and>
   (0 < n \<and> v \<le> n \<and> n < 2 ^ 40 \<longrightarrow>
      toFixed 1 (verification_percentage v n) =
        String_of_number (nat (rate_tenths v n div 10)) @ ''.'' @
          [digit_char (nat (rate_tenths v n mod 10))] \<and>
      \<bar>real_of_int (rate_tenths v n) / 10 - real v / real n * 100\<bar> \<le> 1 / 20 \<and>
      (real_of_int (rate_tenths v n) / 10 = one_decimal (real v / real n * 100) \<or>
       real_of_int (rate_tenths v n) / 10 = one_decimal (real v / real n * 100) - 1 / 10 \<and>
       real v / real n * 100 * 10 + 1 / 2 =
         real_of_int \<lfloor>real v / real n * 100 * 10 + 1 / 2\<rfloor>)) \<and>
   (0 < n \<longrightarrow> toFixed 1 (verification_percentage n n) = ''100.0'')"
proof -
  have fields: "totalTeams (computeStats users teams) = length teams \<and>
      verifiedPayments (computeStats users teams) =
        length (filter (\<lambda>t. paymentStatus t = ''verified'') teams) \<and>
      pendingPayments (computeStats users teams) =
        length (filter (\<lambda>t. paymentStatus t = ''pending'') teams) \<and>
      rejectedPayments (computeStats users teams) =
        length (filter (\<lambda>t. paymentStatus t = ''rejected'') teams) \<and>
      totalUsers (computeStats users teams) = length users"
    using computeStats_fields [of users teams] by blast
  have rate: "paymentVerificationRate (computeStats users teams) =
     (if totalTeams (computeStats users teams) = 0 then JsonNumber 0
      else JsonString (toFixed 1 (verification_percentage
             (verifiedPayments (computeStats users teams))
             (totalTeams (computeStats users teams)))))"
    by (simp add: computeStats_def Let_def)
  have sum: "verifiedPayments (computeStats users (run ops)) +
      pendingPayments (computeStats users (run ops)) +
      rejectedPayments (computeStats users (run ops)) =
        totalTeams (computeStats users (run ops))"
    using count_by_status [OF run_payment_status [of ops]]
    by (simp add: computeStats_def Let_def)
  have near: "toFixed 1 (verification_percentage v n) =
        String_of_number (nat (rate_tenths v n div 10)) @ ''.'' @
          [digit_char (nat (rate_tenths v n mod 10))] \<and>
      \<bar>real_of_int (rate_tenths v n) / 10 - real v / real n * 100\<bar> \<le> 1 / 20 \<and>
      (real_of_int (rate_tenths v n) / 10 = one_decimal (real v / real n * 100) \<or>
       real_of_int (rate_tenths v n) / 10 = one_decimal (real v / real n * 100) - 1 / 10 \<and>
       real v / real n * 100 * 10 + 1 / 2 =
         real_of_int \<lfloor>real v / real n * 100 * 10 + 1 / 2\<rfloor>)"
    if "0 < n" "v \<le> n" "n < 2 ^ 40"
  proof -
    note bound = rate_tenths_nearest [OF that(1) that(3) that(2)]
    from toFixed_1_digits [OF verification_percentage_nonneg [OF that(2)]]
    have "toFixed 1 (verification_percentage v n) =
        String_of_number (nat (rate_tenths v n div 10)) @ ''.'' @
          [digit_char (nat (rate_tenths v n mod 10))]"
      unfolding rate_tenths_def .
    with bound nearest_tenth_cases [OF bound] show ?thesis by blast
  qed
  from fields rate sum near all_verified_rate [of n] show ?thesis by blast
qed

theorem stats_reported_witness:
  "verifiedPayments (computeStats scenario_users
       (run [Register scenario_users 101 falcons_body, SetPaymentStatus 0 ''verified''])) = 1 \<and>
   paymentVerificationRate (computeStats scenario_users
       (run [Register scenario_users 101 falcons_body, SetPaymentStatus 0 ''verified''])) =
     JsonString ''100.0'' \<and>
   paymentVerificationRate (computeStats scenario_users []) = JsonNumber 0 \<and>
   \<bar>real_of_int (rate_tenths 2 3) / 10 - real 2 / real 3 * 100\<bar> \<le> 1 / 20"
proof -
  let ?verified = "[falcons\<lparr>paymentStatus := ''verified''\<rparr>]"
  note s1 = stats_reported [where users = scenario_users and teams = ?verified
      and n = 1 and v = 1 and ops = "[]"]
  note s0 = stats_reported [where users = scenario_users and teams = "[]"
      and n = 3 and v = 2 and ops = "[]"]
  have count: "verifiedPayments (computeStats scenario_users ?verified) = 1"
    using s1 by simp
  have total: "totalTeams (computeStats scenario_users ?verified) = 1"
    using s1 by simp
  from s1 have "(0::nat) < 1 \<longrightarrow> toFixed 1 (verification_percentage 1 1) = ''100.0''"
    by (elim conjE)
  then have full: "toFixed 1 (verification_percentage 1 1) = ''100.0''" by simp
  from s1 have "paymentVerificationRate (computeStats scenario_users ?verified) =
     (if totalTeams (computeStats scenario_users ?verified) = 0 then JsonNumber 0
      else JsonString (toFixed 1 (verification_percentage
             (verifiedPayments (computeStats scenario_users ?verified))
             (totalTeams (computeStats scenario_users ?verified)))))"
    by (elim conjE)
  then have rate: "paymentVerificationRate (computeStats scenario_users ?verified) =
      JsonString ''100.0''"
    unfolding count total full by simp
  from s0 have none: "paymentVerificationRate (computeStats scenario_users []) = JsonNumber 0"
    by simp
  from s0 have "(0::nat) < 3 \<and> (2::nat) \<le> 3 \<and> (3::nat) < 2 ^ 40 \<longrightarrow>
      \<bar>real_of_int (rate_tenths 2 3) / 10 - real 2 / real 3 * 100\<bar> \<le> 1 / 20"
    by (elim conjE) (rule impI, drule (1) mp, elim conjE)
  then have "\<bar>real_of_int (rate_tenths 2 3) / 10 - real 2 / real 3 * 100\<bar> \<le> 1 / 20"
    by simp
  with count rate none show ?thesis
    unfolding run_scenario_verified by blast
qed

text \<open>Against C8 as it is worded: with 23 verified teams among 80, a collection reached
  by 80 registrations and 23 status changes, the exact percentage is 28.75, which rounds
  to 28.8; the double computed for it lies just below 28.75 and the rate reads \<open>28.7\<close>.\<close>

theorem rate_of_23_verified_in_80:
  "run (map solo_registration [0..<80] @ map verify_team [0..<23]) = eighty_teams \<and>
   totalTeams (computeStats eighty_users eighty_teams) = 80 \<and>
   verifiedPayments (computeStats eighty_users eighty_teams) = 23 \<and>
   real 23 / real 80 * 100 = 28.75 \<and>
   one_decimal (real 23 / real 80 * 100) = 28.8 \<and>
   paymentVerificationRate (computeStats eighty_users eighty_teams) = JsonString ''28.7''"
proof -
  note c = eighty_teams_counts
  have f: "totalTeams (computeStats eighty_users eighty_teams) = 80"
    "verifiedPayments (computeStats eighty_users eighty_teams) = 23"
    using computeStats_fields [of eighty_users eighty_teams] c by simp_all
  have "eighty_teams \<noteq> []" using c by auto
  then have "paymentVerificationRate (computeStats eighty_users eighty_teams) =
      JsonString (toFixed 1 (verification_percentage 23 80))"
    using computeStats_fields [of eighty_users eighty_teams] c by simp
  then have r: "paymentVerificationRate (computeStats eighty_users eighty_teams) =
      JsonString ''28.7''"
    by (simp only: conjunct2 [OF rate_23_of_80])
  have "one_decimal (real 23 / real 80 * 100) = 28.8"
    by (simp add: one_decimal_def)
  moreover have "real 23 / real 80 * 100 = 28.75" by simp
  ultimately show ?thesis using f r eighty_teams_reached by blast
qed

end
